theory Spec2Isabelle
  imports Complex_Main "HOL-Library.AList"
begin

section \<open>Python values and library functions the script relies on\<close>

text \<open>
  The script \<^verbatim>\<open>scripts/openai_assistant.py\<close> is sequential glue around two remote
  services. Its functions are embedded as HOL functions over an explicit trace of
  effects. Strings are \<open>char list\<close>s, one \<open>char\<close> per code point below 256. A finite
  Python float is read as the real it denotes; rounding is outside the model, the
  range limits of floats and of \<^verbatim>\<open>time.sleep\<close> are not.
\<close>

datatype log_level = DEBUG | INFO | WARNING | ERROR

datatype py_error = ValueError | AttributeError | OverflowError | TypeError | GithubException

text \<open>
  What \<^verbatim>\<open>float(os.getenv(...))\<close> can yield: a finite float, an infinity
  (\<^verbatim>\<open>"inf"\<close>, \<^verbatim>\<open>"-inf"\<close>) or \<^verbatim>\<open>"nan"\<close>.
\<close>

datatype pyfloat = Finite real | PosInf | NegInf | NaN

definition nl :: string where
  "nl = [CHR 0x0A]"

definition is_space :: "char \<Rightarrow> bool" where
  \<comment> \<open>\<^verbatim>\<open>str.isspace\<close> on the code points below 256\<close>
  "is_space c = (let n = (of_char c :: nat) in
     (9 \<le> n \<and> n \<le> 13) \<or> (28 \<le> n \<and> n \<le> 32) \<or> n = 133 \<or> n = 160)"

definition strip :: "string \<Rightarrow> string" where
  \<comment> \<open>\<^verbatim>\<open>str.strip()\<close>\<close>
  "strip s = rev (dropWhile is_space (rev (dropWhile is_space s)))"

definition truthy :: "string option \<Rightarrow> bool" where
  \<comment> \<open>truth value of an optional string: \<^verbatim>\<open>None\<close> and \<^verbatim>\<open>""\<close> are false\<close>
  "truthy v = (case v of None \<Rightarrow> False | Some s \<Rightarrow> s \<noteq> [])"

fun join :: "string \<Rightarrow> string list \<Rightarrow> string" where
  "join sep [] = []"
| "join sep [x] = x"
| "join sep (x # y # ys) = x @ sep @ join sep (y # ys)"

definition slice_to :: "'a list \<Rightarrow> int \<Rightarrow> 'a list" where
  \<comment> \<open>\<^verbatim>\<open>xs[:n]\<close>: a negative bound counts from the end\<close>
  "slice_to xs n = (if 0 \<le> n then take (nat n) xs else take (length xs - nat (- n)) xs)"

definition is_linebreak :: "char \<Rightarrow> bool" where
  \<comment> \<open>the line boundaries of \<^verbatim>\<open>str.splitlines\<close> below 256, carriage return apart\<close>
  "is_linebreak c = (let n = (of_char c :: nat) in
     n = 10 \<or> n = 11 \<or> n = 12 \<or> n = 28 \<or> n = 29 \<or> n = 30 \<or> n = 133)"

fun splitlines_from :: "string \<Rightarrow> string \<Rightarrow> string list" where
  "splitlines_from cur [] = (if cur = [] then [] else [cur])"
| "splitlines_from cur [c] =
     (if c = CHR 0x0D \<or> is_linebreak c then [cur] else [cur @ [c]])"
| "splitlines_from cur (c # d # cs) =
     (if c = CHR 0x0D \<and> d = CHR 0x0A then cur # splitlines_from [] cs
      else if c = CHR 0x0D \<or> is_linebreak c then cur # splitlines_from [] (d # cs)
      else splitlines_from (cur @ [c]) (d # cs))"

definition splitlines :: "string \<Rightarrow> string list" where
  "splitlines s = splitlines_from [] s"

section \<open>Data model\<close>

datatype role = System | User

record message =
  role :: role
  content :: string

text \<open>The environment variables read at module level.\<close>

record settings =
  GITHUB_TOKEN :: "string option"
  OPENAI_API_KEY :: "string option"
  OPENAI_MODEL :: string
  OPENAI_TEMPERATURE :: real
  ASSISTANT_LABEL :: string
  MAX_RESPONSE_TOKENS :: int
  RETRY_ATTEMPTS :: int
  RETRY_BACKOFF :: pyfloat
  MAX_SNIPPET_FILES :: int

definition default_settings :: "string option \<Rightarrow> string option \<Rightarrow> settings" where
  "default_settings token key =
     \<lparr>GITHUB_TOKEN = token, OPENAI_API_KEY = key, OPENAI_MODEL = ''gpt-4o'',
      OPENAI_TEMPERATURE = 0, ASSISTANT_LABEL = ''ai-assisted'',
      MAX_RESPONSE_TOKENS = 600, RETRY_ATTEMPTS = 3, RETRY_BACKOFF = Finite 2,
      MAX_SNIPPET_FILES = 5\<rparr>"

text \<open>
  Every request to a remote service, with whether it succeeded, every sleep and every
  log record (level and message template) is appended to one trace, in program order.
\<close>

datatype call =
    ChatCompletion_create string "message list" real int
  | Get_repo string
  | Get_pull int
  | Get_files
  | Get_contents string
  | Get_issue int
  | Create_comment string
  | Get_labels
  | Add_to_labels string
  | Create_label string string string

datatype event = Net call bool | Sleep real | Log log_level string

type_synonym effects = "event list"

text \<open>
  What lies outside the script during one run: the two services and the limits of the
  interpreter. \<open>completion messages k\<close> is the outcome of the \<open>k\<close>-th completion request:
  \<open>Raises\<close> stands for any exception raised inside the \<^verbatim>\<open>try\<close> body (the request
  itself or the extraction of \<^verbatim>\<open>choices[0].message.content\<close>), \<open>Replies\<close> carries the
  content text. Each hosting operation either succeeds throughout the run or fails
  throughout. \<open>float_max\<close> bounds the finite floats (\<^verbatim>\<open>sys.float_info.max\<close>; rounding at
  the bound is outside the model, as everywhere) and \<open>sleep_max\<close> is the longest wait in
  seconds that \<^verbatim>\<open>time.sleep\<close> accepts.
\<close>

datatype attempt = Raises string | Replies string

record pr_file =
  filename :: string
  patch :: "string option"

record outside =
  completion :: "message list \<Rightarrow> nat \<Rightarrow> attempt"
  repo_ok :: bool
  pull_ok :: bool
  files :: "pr_file list option"
  contents :: "string \<Rightarrow> string option"
  issue_ok :: bool
  comment_ok :: bool
  labels :: "string list option"
  add_label_ok :: bool
  create_label_ok :: bool
  float_max :: real
  sleep_max :: real

text \<open>
  \<^verbatim>\<open>base ** k\<close> for a float base and an integer \<open>k\<close>: a finite result beyond the
  largest float raises \<^verbatim>\<open>OverflowError\<close>; infinities and \<^verbatim>\<open>nan\<close> propagate.
\<close>

fun float_pow :: "outside \<Rightarrow> pyfloat \<Rightarrow> nat \<Rightarrow> py_error + pyfloat" where
  "float_pow w (Finite b) k =
     (if float_max w < \<bar>b ^ k\<bar> then Inl OverflowError else Inr (Finite (b ^ k)))"
| "float_pow w PosInf k = Inr (if k = 0 then Finite 1 else PosInf)"
| "float_pow w NegInf k = Inr (if k = 0 then Finite 1 else if even k then PosInf else NegInf)"
| "float_pow w NaN k = Inr (if k = 0 then Finite 1 else NaN)"

text \<open>
  \<^verbatim>\<open>time.sleep(wait)\<close>: a wait that does not fit the platform's clock, an infinity
  included, raises \<^verbatim>\<open>OverflowError\<close>; a negative wait or \<^verbatim>\<open>nan\<close> raises
  \<^verbatim>\<open>ValueError\<close>; otherwise the call returns after \<open>wait\<close> seconds.
\<close>

fun time_sleep :: "outside \<Rightarrow> pyfloat \<Rightarrow> py_error + real" where
  "time_sleep w (Finite x) =
     (if x < - sleep_max w \<or> sleep_max w < x then Inl OverflowError
      else if x < 0 then Inl ValueError
      else Inr x)"
| "time_sleep w PosInf = Inl OverflowError"
| "time_sleep w NegInf = Inl OverflowError"
| "time_sleep w NaN = Inl ValueError"

section \<open>Observations on a trace\<close>

fun sleep_of :: "event \<Rightarrow> real list" where
  "sleep_of (Sleep r) = [r]"
| "sleep_of _ = []"

definition sleeps :: "effects \<Rightarrow> real list" where
  "sleeps fx = concat (map sleep_of fx)"

fun request_of :: "event \<Rightarrow> call list" where
  "request_of (Net c ok) = [c]"
| "request_of _ = []"

definition requests :: "effects \<Rightarrow> call list" where
  "requests fx = concat (map request_of fx)"

fun completion_of :: "event \<Rightarrow> call list" where
  "completion_of (Net (ChatCompletion_create m ms t n) ok) = [ChatCompletion_create m ms t n]"
| "completion_of _ = []"

definition completion_attempts :: "effects \<Rightarrow> call list" where
  "completion_attempts fx = concat (map completion_of fx)"

fun comment_of :: "event \<Rightarrow> string list" where
  "comment_of (Net (Create_comment b) ok) = (if ok then [b] else [])"
| "comment_of _ = []"

definition posted :: "effects \<Rightarrow> string list" where
  "posted fx = concat (map comment_of fx)"

fun label_of :: "event \<Rightarrow> string list" where
  "label_of (Net (Add_to_labels l) ok) = (if ok then [l] else [])"
| "label_of _ = []"

definition attached :: "effects \<Rightarrow> string list" where
  "attached fx = concat (map label_of fx)"

text \<open>Events that neither write to the hosting service nor ask for a completion.\<close>

fun silent :: "event \<Rightarrow> bool" where
  "silent (Net (ChatCompletion_create m ms t n) ok) = False"
| "silent (Net (Create_comment b) ok) = False"
| "silent (Net (Add_to_labels l) ok) = False"
| "silent (Net (Create_label l c d) ok) = False"
| "silent e = True"

section \<open>Retrying completion caller\<close>

datatype loop_exit = Returned string | Propagated py_error | Exhausted "string option"

definition create_call :: "settings \<Rightarrow> message list \<Rightarrow> call" where
  "create_call st messages =
     ChatCompletion_create (OPENAI_MODEL st) messages (OPENAI_TEMPERATURE st) (MAX_RESPONSE_TOKENS st)"

definition retry_warning :: string where
  "retry_warning = ''OpenAI call failed (attempt %d/%d): %s. Retrying in %.1fs''"

text \<open>
  The \<^verbatim>\<open>for attempt in range(1, RETRY_ATTEMPTS + 1)\<close> loop, with the number of
  iterations left and the current attempt number. An exception of \<^verbatim>\<open>**\<close> or of
  \<^verbatim>\<open>time.sleep\<close> is raised inside the \<^verbatim>\<open>except\<close> handler and leaves the function.
\<close>

fun retry_loop ::
  "settings \<Rightarrow> outside \<Rightarrow> message list \<Rightarrow> nat \<Rightarrow> nat \<Rightarrow> string option \<Rightarrow> effects
   \<Rightarrow> loop_exit \<times> effects" where
  "retry_loop st w messages 0 attempt last_exc fx = (Exhausted last_exc, fx)"
| "retry_loop st w messages (Suc remaining) attempt last_exc fx =
     (case completion w messages attempt of
        Replies c \<Rightarrow> (Returned (strip c), fx @ [Net (create_call st messages) True])
      | Raises e \<Rightarrow>
          (let fx1 = fx @ [Net (create_call st messages) False]
           in case float_pow w (RETRY_BACKOFF st) attempt of
                Inl err \<Rightarrow> (Propagated err, fx1)
              | Inr wait \<Rightarrow>
                  (let fx2 = fx1 @ [Log WARNING retry_warning]
                   in case time_sleep w wait of
                        Inl err \<Rightarrow> (Propagated err, fx2)
                      | Inr slept \<Rightarrow>
                          retry_loop st w messages remaining (Suc attempt) (Some e)
                            (fx2 @ [Sleep slept]))))"

definition call_openai_chat ::
  "settings \<Rightarrow> outside \<Rightarrow> message list \<Rightarrow> effects \<Rightarrow> (py_error + string option) \<times> effects" where
  "call_openai_chat st w messages fx =
     (if \<not> truthy (OPENAI_API_KEY st)
      then (Inr None, fx @ [Log INFO ''Skipping OpenAI call because OPENAI_API_KEY is not set.''])
      else
        (case retry_loop st w messages (nat (RETRY_ATTEMPTS st)) 1 None fx of
           (Returned c, fx1) \<Rightarrow> (Inr (Some c), fx1)
         | (Propagated e, fx1) \<Rightarrow> (Inl e, fx1)
         | (Exhausted last_exc, fx1) \<Rightarrow>
             (let fx2 = fx1 @ [Log ERROR ''OpenAI calls failed after %d attempts: %s'']
              in case last_exc of
                   None \<Rightarrow> (Inl AttributeError, fx2)
                 | Some e \<Rightarrow> (Inr None, fx2))))"

text \<open>
  Lines 92 and 94 of the handler taken together: the wait of attempt \<open>k\<close> and its sleep,
  \<open>Inr x\<close> when \<open>x\<close> seconds were slept and \<open>Inl\<close> the exception otherwise.
\<close>

definition backoff_wait :: "settings \<Rightarrow> outside \<Rightarrow> nat \<Rightarrow> py_error + real" where
  "backoff_wait st w k =
     (case float_pow w (RETRY_BACKOFF st) k of
        Inl err \<Rightarrow> Inl err
      | Inr wait \<Rightarrow> time_sleep w wait)"

text \<open>What one failed attempt followed by a sleep of \<open>x\<close> seconds adds to the trace.\<close>

definition failed_round :: "settings \<Rightarrow> message list \<Rightarrow> real \<Rightarrow> effects" where
  "failed_round st messages x =
     [Net (create_call st messages) False, Log WARNING retry_warning, Sleep x]"

section \<open>Responder\<close>

definition safe_post_comment_and_label ::
  "settings \<Rightarrow> outside \<Rightarrow> string \<Rightarrow> int \<Rightarrow> string \<Rightarrow> effects \<Rightarrow> effects" where
  "safe_post_comment_and_label st w repo_full number comment_body fx =
     (let post_failed = Log ERROR ''Failed to post comment or add label; check permissions and GITHUB_TOKEN.'';
          label_failed = Log ERROR ''Failed to add label (non-fatal).'';
          no_label = Log INFO ''Could not create label %s, possibly due to permissions.'';
          label = ASSISTANT_LABEL st
      in
      if \<not> truthy (GITHUB_TOKEN st)
      then fx @ [Log INFO ''GITHUB_TOKEN not available; skipping comment/label creation.'']
      else if \<not> repo_ok w then fx @ [Net (Get_repo repo_full) False, post_failed]
      else if \<not> issue_ok w
      then fx @ [Net (Get_repo repo_full) True, Net (Get_issue number) False, post_failed]
      else if \<not> comment_ok w
      then fx @ [Net (Get_repo repo_full) True, Net (Get_issue number) True,
                 Net (Create_comment comment_body) False, post_failed]
      else
        (let fx1 = fx @ [Net (Get_repo repo_full) True, Net (Get_issue number) True,
                         Net (Create_comment comment_body) True]
         in case labels w of
              None \<Rightarrow> fx1 @ [Net Get_labels False, label_failed]
            | Some names \<Rightarrow>
                (let fx2 = fx1 @ [Net Get_labels True]
                 in if label \<in> set names
                    then (if add_label_ok w then fx2 @ [Net (Add_to_labels label) True]
                          else fx2 @ [Net (Add_to_labels label) False, label_failed])
                    else if \<not> create_label_ok w
                    then fx2 @ [Net (Create_label label ''f29513'' ''AI-assisted content'') False, no_label]
                    else if add_label_ok w
                    then fx2 @ [Net (Create_label label ''f29513'' ''AI-assisted content'') True,
                                Net (Add_to_labels label) True]
                    else fx2 @ [Net (Create_label label ''f29513'' ''AI-assisted content'') True,
                                Net (Add_to_labels label) False, no_label])))"

section \<open>Snippet extractor\<close>

definition fetch_changed_files_for_pr :: "outside \<Rightarrow> int \<Rightarrow> effects \<Rightarrow> string list \<times> effects" where
  "fetch_changed_files_for_pr w pr_number fx =
     (let failed = Log ERROR ''Failed to fetch changed files for PR %s''
      in if \<not> pull_ok w then ([], fx @ [Net (Get_pull pr_number) False, failed])
         else case files w of
                None \<Rightarrow> ([], fx @ [Net (Get_pull pr_number) True, Net Get_files False, failed])
              | Some fs \<Rightarrow> (map filename fs, fx @ [Net (Get_pull pr_number) True, Net Get_files True]))"

text \<open>
  \<open>repo_obj\<close> tells whether a repository handle exists (it is \<^verbatim>\<open>None\<close> without a
  hosting credential, and every use of it then raises inside the \<^verbatim>\<open>try\<close>).
\<close>

definition get_file_snippet_for_pr ::
  "outside \<Rightarrow> bool \<Rightarrow> int \<Rightarrow> string \<Rightarrow> int \<Rightarrow> effects \<Rightarrow> string \<times> effects" where
  "get_file_snippet_for_pr w repo_obj pr_number file_path max_lines fx =
     (let failed = Log ERROR ''Error while extracting snippet for %s''
      in if \<not> repo_obj then ([], fx @ [failed])
         else if \<not> pull_ok w then ([], fx @ [Net (Get_pull pr_number) False, failed])
         else case files w of
                None \<Rightarrow> ([], fx @ [Net (Get_pull pr_number) True, Net Get_files False, failed])
              | Some fs \<Rightarrow>
                  (let fx1 = fx @ [Net (Get_pull pr_number) True, Net Get_files True]
                   in case find (\<lambda>f. filename f = file_path) fs of
                        None \<Rightarrow> ([], fx1)
                      | Some f \<Rightarrow>
                          if truthy (patch f)
                          then (join nl (slice_to (splitlines (case patch f of None \<Rightarrow> [] | Some p \<Rightarrow> p)) max_lines), fx1)
                          else (case contents w file_path of
                                  None \<Rightarrow> ([], fx1 @ [Net (Get_contents file_path) False,
                                                     Log DEBUG ''Could not fetch raw content for %s at %s''])
                                | Some text \<Rightarrow>
                                    (join nl (slice_to (splitlines text) max_lines),
                                     fx1 @ [Net (Get_contents file_path) True]))))"

section \<open>Prompt builder\<close>

text \<open>
  The configuration document is a mapping (\<^verbatim>\<open>Dict\<close>); \<open>None\<close> is an absent key.
  What \<^verbatim>\<open>sensitive_paths\<close> holds is iterated by the pull-request builder: \<open>Items ps\<close>
  is a value that can be iterated, with \<open>ps\<close> the texts \<^verbatim>\<open>str(p)\<close> of what it yields (the
  items of a list, the characters of a string, the keys of a mapping); \<open>Not_iterable\<close> is
  any other value: \<^verbatim>\<open>null\<close> (a key written without a value), a number, a boolean.
\<close>

datatype paths = Items "string list" | Not_iterable

record assistant_config =
  system_prompt :: "string option"
  pr_prompt :: "string option"
  issue_prompt :: "string option"
  sensitive_paths :: "paths option"
  max_file_snippet_lines :: "int option"

definition empty_config :: assistant_config where
  "empty_config = \<lparr>system_prompt = None, pr_prompt = None, issue_prompt = None,
     sensitive_paths = None, max_file_snippet_lines = None\<rparr>"

text \<open>
  \<^verbatim>\<open>str.format\<close> is Python's, not the script's: the builders take it as the parameter
  \<open>fmt\<close>, which maps a template and the keyword arguments to the formatted text, or to
  \<open>None\<close> when the call raises.
\<close>

datatype pyval = PStr string | PInt int

type_synonym formatter = "string \<Rightarrow> (string \<times> pyval) list \<Rightarrow> string option"

definition pr_summary :: "string \<Rightarrow> string \<Rightarrow> string \<Rightarrow> string" where
  "pr_summary title body changed_files_list =
     ''PR title: '' @ title @ nl @ nl @ ''PR body:'' @ nl @ body @ nl @ nl
       @ ''Changed files:'' @ nl @ changed_files_list"

definition pr_task :: string where
  "pr_task = nl @ nl @ ''Task: Write a concise, reviewer-friendly PR description and a focused reviewer checklist. Highlight any security-sensitive files and recommend manual checks.''"

definition build_pr_prompt ::
  "formatter \<Rightarrow> string \<Rightarrow> string \<Rightarrow> string list \<Rightarrow> (string \<times> string) list \<Rightarrow> string \<Rightarrow> int
   \<Rightarrow> assistant_config \<Rightarrow> effects \<Rightarrow> (py_error + message list) \<times> effects" where
  "build_pr_prompt fmt title body changed_files snippets repo_full pr_number cfg fx =
     (let changed_files_list =
            (if changed_files \<noteq> [] then join nl (map (\<lambda>p. ''- '' @ p) changed_files)
             else ''No file list available.'');
          system = (case system_prompt cfg of
                      None \<Rightarrow> ''You are a cautious, security-minded coding assistant. Prioritize human review and be concise.''
                    | Some s \<Rightarrow> s);
          pr_template = (case pr_prompt cfg of None \<Rightarrow> [] | Some t \<Rightarrow> t);
          (user_content, fx1) =
            (if pr_template \<noteq> []
             then (case fmt pr_template
                          [(''title'', PStr title), (''body'', PStr body),
                           (''changed_files_list'', PStr changed_files_list),
                           (''repo_full'', PStr repo_full), (''pr_number'', PInt pr_number)] of
                     Some text \<Rightarrow> (text, fx)
                   | None \<Rightarrow>
                       (pr_summary title body changed_files_list,
                        fx @ [Log ERROR ''Failed to format pr_prompt template; falling back to default.'']))
             else (pr_summary title body changed_files_list @ pr_task, fx));
          context_head =
            [''Changed files (top-level list):'', changed_files_list, [], ''Sensitive path patterns:'']
      in case (case sensitive_paths cfg of None \<Rightarrow> Items [] | Some v \<Rightarrow> v) of
           Not_iterable \<Rightarrow> (Inl TypeError, fx1)
         | Items ps \<Rightarrow>
             (let context_lines =
                    context_head @ map (\<lambda>p. ''- '' @ p) ps
                    @ (if snippets \<noteq> []
                       then (nl @ ''Snippets from changed files (limited):'')
                            # concat (map (\<lambda>(path, snippet).
                                         [''--- '' @ path @ '' ---'',
                                          if snippet \<noteq> [] then snippet else ''(no snippet available)''])
                                      snippets)
                       else []);
                  context_block = join nl context_lines
              in (Inr [\<lparr>role = System, content = system\<rparr>,
                       \<lparr>role = User, content = context_block\<rparr>,
                       \<lparr>role = User, content = user_content\<rparr>], fx1)))"

definition issue_task :: "string \<Rightarrow> string \<Rightarrow> string" where
  "issue_task title body =
     ''Issue title: '' @ title @ nl @ nl @ ''Body:'' @ nl @ body @ nl @ nl
       @ ''Task: Triage this issue, suggest severity and next steps.''"

definition build_issue_prompt ::
  "formatter \<Rightarrow> string \<Rightarrow> string \<Rightarrow> string \<Rightarrow> int \<Rightarrow> assistant_config \<Rightarrow> effects
   \<Rightarrow> message list \<times> effects" where
  "build_issue_prompt fmt title body repo_full issue_number cfg fx =
     (let system = (case system_prompt cfg of
                      None \<Rightarrow> ''You are a careful triage assistant. Request reproduction steps and emphasize security when relevant.''
                    | Some s \<Rightarrow> s);
          issue_template = (case issue_prompt cfg of None \<Rightarrow> [] | Some t \<Rightarrow> t);
          (user_content, fx1) =
            (if issue_template \<noteq> []
             then (case fmt issue_template
                          [(''title'', PStr title), (''body'', PStr body),
                           (''repo_full'', PStr repo_full), (''issue_number'', PInt issue_number)] of
                     Some text \<Rightarrow> (text, fx)
                   | None \<Rightarrow>
                       (issue_task title body,
                        fx @ [Log ERROR ''Failed to format issue_prompt template; falling back to default.'']))
             else (issue_task title body, fx))
      in ([\<lparr>role = System, content = system\<rparr>,
           \<lparr>role = User, content = user_content\<rparr>], fx1))"

section \<open>Handlers and dispatcher\<close>

text \<open>
  The event payload, typed as the hosting service writes it: an object whose
  \<^verbatim>\<open>pull_request\<close> and \<^verbatim>\<open>issue\<close> members, when present, are objects with optional
  \<^verbatim>\<open>title\<close>, \<^verbatim>\<open>body\<close> and \<^verbatim>\<open>number\<close>, and whose \<^verbatim>\<open>repository.full_name\<close>
  is an optional string. \<open>None\<close> is an absent key; for \<^verbatim>\<open>body\<close>, \<^verbatim>\<open>number\<close> and
  \<^verbatim>\<open>full_name\<close> the script treats a JSON \<^verbatim>\<open>null\<close> in the same way. Payloads that
  are not of this shape (a top-level array, a \<^verbatim>\<open>pull_request\<close> that is not an object)
  are outside the model.
\<close>

record entity =
  entity_title :: "string option"
  entity_body :: "string option"
  entity_number :: "int option"

record payload =
  pull_request :: "entity option"
  issue :: "entity option"
  repository_full_name :: "string option"

definition empty_entity :: entity where
  "empty_entity = \<lparr>entity_title = None, entity_body = None, entity_number = None\<rparr>"

definition empty_payload :: payload where
  "empty_payload = \<lparr>pull_request = None, issue = None, repository_full_name = None\<rparr>"

text \<open>
  The loop of \<^verbatim>\<open>handle_pull_request\<close> that fills the \<^verbatim>\<open>snippets\<close> dictionary, an
  association list in insertion order: assigning to a key that is present keeps its place.
\<close>

fun snippet_loop ::
  "outside \<Rightarrow> bool \<Rightarrow> int \<Rightarrow> int \<Rightarrow> string list \<Rightarrow> (string \<times> string) list \<Rightarrow> effects
   \<Rightarrow> (string \<times> string) list \<times> effects" where
  "snippet_loop w repo_obj pr_number max_lines [] snippets fx = (snippets, fx)"
| "snippet_loop w repo_obj pr_number max_lines (path # paths) snippets fx =
     (case get_file_snippet_for_pr w repo_obj pr_number path max_lines fx of
        (snippet, fx1) \<Rightarrow>
          snippet_loop w repo_obj pr_number max_lines paths (AList.update path snippet snippets) fx1)"

definition pr_snippets ::
  "settings \<Rightarrow> assistant_config \<Rightarrow> outside \<Rightarrow> bool \<Rightarrow> int \<Rightarrow> string list \<Rightarrow> effects
   \<Rightarrow> (string \<times> string) list \<times> effects" where
  "pr_snippets st cfg w repo_obj pr_number changed_files fx =
     (let max_snip_lines = (case max_file_snippet_lines cfg of None \<Rightarrow> 40 | Some n \<Rightarrow> n)
      in snippet_loop w repo_obj pr_number max_snip_lines
           (if changed_files \<noteq> [] then slice_to changed_files (MAX_SNIPPET_FILES st) else [])
           [] fx)"

definition pr_comment :: "string \<Rightarrow> string" where
  "pr_comment suggestion =
     '':robot: AI assistant suggestion (please review carefully):'' @ nl @ nl
       @ suggestion @ nl @ nl
       @ ''_Note: This is an automated suggestion. All AI-generated content must be reviewed by a human before merging._''"

definition issue_comment :: "string \<Rightarrow> string" where
  "issue_comment suggestion =
     '':robot: AI assistant triage suggestion (please review):'' @ nl @ nl
       @ suggestion @ nl @ nl
       @ ''_Note: This is an automated suggestion. All AI-generated content must be reviewed by a human._''"

text \<open>
  A handler returns \<open>None\<close> when it returns normally and the exception that left it
  otherwise. In \<^verbatim>\<open>handle_pull_request\<close> the requests for the repository and the prompt
  builder stand outside any \<^verbatim>\<open>try\<close>.
\<close>

definition handle_pull_request ::
  "settings \<Rightarrow> assistant_config \<Rightarrow> formatter \<Rightarrow> outside \<Rightarrow> payload \<Rightarrow> effects
   \<Rightarrow> py_error option \<times> effects" where
  "handle_pull_request st cfg fmt w event fx =
     (let pr = (case pull_request event of None \<Rightarrow> empty_entity | Some e \<Rightarrow> e);
          title = (case entity_title pr of None \<Rightarrow> [] | Some t \<Rightarrow> t);
          body = (case entity_body pr of None \<Rightarrow> [] | Some b \<Rightarrow> b);
          aborted = (None, fx @ [Log ERROR ''PR payload missing repository or pr number; aborting.''])
      in case repository_full_name event of
           None \<Rightarrow> aborted
         | Some repo_full \<Rightarrow>
             if repo_full = [] then aborted
             else case entity_number pr of
                    None \<Rightarrow> aborted
                  | Some pr_number \<Rightarrow>
                      (let fx1 = fx @ [Log INFO ''Handling PR %s#%s''];
                           repo_obj = truthy (GITHUB_TOKEN st)
                       in if repo_obj \<and> \<not> repo_ok w
                          then (Some GithubException, fx1 @ [Net (Get_repo repo_full) False])
                          else
                            (let fx2 = (if repo_obj then fx1 @ [Net (Get_repo repo_full) True] else fx1);
                                 (changed_files, fx3) =
                                   (if repo_obj then fetch_changed_files_for_pr w pr_number fx2
                                    else ([], fx2));
                                 (snippets, fx4) = pr_snippets st cfg w repo_obj pr_number changed_files fx3;
                                 (built, fx5) =
                                   build_pr_prompt fmt title body changed_files snippets repo_full
                                     pr_number cfg fx4
                             in case built of
                                  Inl e \<Rightarrow> (Some e, fx5)
                                | Inr messages \<Rightarrow>
                                    (case call_openai_chat st w messages fx5 of
                                       (Inl e, fx6) \<Rightarrow> (Some e, fx6)
                                     | (Inr None, fx6) \<Rightarrow>
                                         (None, fx6 @ [Log INFO ''No suggestion returned from OpenAI for PR.''])
                                     | (Inr (Some suggestion), fx6) \<Rightarrow>
                                         if suggestion = []
                                         then (None, fx6 @ [Log INFO ''No suggestion returned from OpenAI for PR.''])
                                         else (None, safe_post_comment_and_label st w repo_full pr_number
                                                       (pr_comment suggestion) fx6)))))"

definition handle_issue ::
  "settings \<Rightarrow> assistant_config \<Rightarrow> formatter \<Rightarrow> outside \<Rightarrow> payload \<Rightarrow> effects
   \<Rightarrow> py_error option \<times> effects" where
  "handle_issue st cfg fmt w event fx =
     (let iss = (case issue event of None \<Rightarrow> empty_entity | Some e \<Rightarrow> e);
          title = (case entity_title iss of None \<Rightarrow> [] | Some t \<Rightarrow> t);
          body = (case entity_body iss of None \<Rightarrow> [] | Some b \<Rightarrow> b);
          aborted = (None, fx @ [Log ERROR ''Issue payload missing repository or issue number; aborting.''])
      in case repository_full_name event of
           None \<Rightarrow> aborted
         | Some repo_full \<Rightarrow>
             if repo_full = [] then aborted
             else case entity_number iss of
                    None \<Rightarrow> aborted
                  | Some issue_number \<Rightarrow>
                      (let fx1 = fx @ [Log INFO ''Handling issue %s#%s''];
                           (messages, fx2) =
                             build_issue_prompt fmt title body repo_full issue_number cfg fx1
                       in case call_openai_chat st w messages fx2 of
                            (Inl e, fx3) \<Rightarrow> (Some e, fx3)
                          | (Inr None, fx3) \<Rightarrow>
                              (None, fx3 @ [Log INFO ''No suggestion returned from OpenAI for issue.''])
                          | (Inr (Some suggestion), fx3) \<Rightarrow>
                              if suggestion = []
                              then (None, fx3 @ [Log INFO ''No suggestion returned from OpenAI for issue.''])
                              else (None, safe_post_comment_and_label st w repo_full issue_number
                                            (issue_comment suggestion) fx3)))"

text \<open>\<open>main\<close> returns the exit status of the process: 1 after \<^verbatim>\<open>sys.exit(1)\<close>, 0 otherwise.\<close>

definition exit_after :: "py_error option \<times> effects \<Rightarrow> int \<times> effects" where
  "exit_after r =
     (case r of
        (None, fx) \<Rightarrow> (0, fx)
      | (Some e, fx) \<Rightarrow> (1, fx @ [Log ERROR ''Unhandled exception in assistant main loop.'']))"

definition main ::
  "settings \<Rightarrow> assistant_config \<Rightarrow> formatter \<Rightarrow> outside \<Rightarrow> payload \<Rightarrow> effects \<Rightarrow> int \<times> effects" where
  "main st cfg fmt w event fx =
     (if pull_request event \<noteq> None then exit_after (handle_pull_request st cfg fmt w event fx)
      else if issue event \<noteq> None then exit_after (handle_issue st cfg fmt w event fx)
      else (0, fx @ [Log INFO ''Event is not a pull_request or issue; nothing to do.'']))"

text \<open>
  What the module reads when it is loaded: whether \<^verbatim>\<open>GITHUB_EVENT_PATH\<close> names an
  existing file, what \<^verbatim>\<open>json.load\<close> makes of it (\<open>None\<close> when it raises) and the
  configuration document (\<open>None\<close> when the file is absent, \<open>Some None\<close> when loading it
  raises).
\<close>

record invocation =
  event_path_ok :: bool
  event_json :: "payload option"
  config_file :: "assistant_config option option"

definition process ::
  "settings \<Rightarrow> formatter \<Rightarrow> outside \<Rightarrow> invocation \<Rightarrow> int \<times> effects" where
  "process st fmt w inp =
     (if \<not> event_path_ok inp then (0, [Log ERROR ''No GITHUB_EVENT_PATH present; exiting.''])
      else
        (let (event, fx1) =
               (case event_json inp of
                  None \<Rightarrow> (empty_payload, [Log ERROR ''Failed to parse GITHUB_EVENT_PATH JSON''])
                | Some p \<Rightarrow> (p, []));
             (cfg, fx2) =
               (case config_file inp of
                  None \<Rightarrow> (empty_config, fx1 @ [Log INFO ''No .github/assistant-config.yaml found; using defaults.''])
                | Some None \<Rightarrow> (empty_config, fx1 @ [Log ERROR ''Failed to load .github/assistant-config.yaml; using defaults.''])
                | Some (Some c) \<Rightarrow> (c, fx1));
             fx3 = (if \<not> truthy (OPENAI_API_KEY st)
                    then fx2 @ [Log WARNING ''OPENAI_API_KEY not set. The assistant will not call the OpenAI API.'']
                    else fx2)
         in main st cfg fmt w event fx3))"

section \<open>Named placeholders of \<^verbatim>\<open>str.format\<close>\<close>

text \<open>
  The fragment of \<^verbatim>\<open>str.format\<close> that the configuration document's templates are
  specified with: literal text, doubled braces and plain named fields, called with keyword
  arguments only. A lone brace and an unclosed field raise \<^verbatim>\<open>ValueError\<close>, an empty or
  numeric field name \<^verbatim>\<open>IndexError\<close>, an unknown name \<^verbatim>\<open>KeyError\<close>. Fields with a
  conversion, a format specification, an attribute or an index are outside the fragment:
  Python evaluates them, \<open>format_named\<close> rejects them, and nothing below applies it to one.
\<close>

fun str_nat :: "nat \<Rightarrow> string" where
  "str_nat n =
     (if n < 10 then [char_of (48 + n)] else str_nat (n div 10) @ [char_of (48 + n mod 10)])"

declare str_nat.simps [simp del]

definition str_int :: "int \<Rightarrow> string" where
  "str_int i = (if i < 0 then CHR ''-'' # str_nat (nat (- i)) else str_nat (nat i))"

fun py_str :: "pyval \<Rightarrow> string" where
  "py_str (PStr s) = s"
| "py_str (PInt i) = str_int i"

definition is_digit :: "char \<Rightarrow> bool" where
  "is_digit c = (let n = (of_char c :: nat) in 48 \<le> n \<and> n \<le> 57)"

datatype fmt_state = Literal | Field string

fun format_scan :: "(string \<times> pyval) list \<Rightarrow> fmt_state \<Rightarrow> string \<Rightarrow> string option" where
  "format_scan kw Literal [] = Some []"
| "format_scan kw (Field name) [] = None"
| "format_scan kw Literal [c] = (if c = CHR ''{'' \<or> c = CHR ''}'' then None else Some [c])"
| "format_scan kw Literal (c # d # cs) =
     (if c = CHR ''{''
      then (if d = CHR ''{'' then map_option ((#) c) (format_scan kw Literal cs)
            else format_scan kw (Field []) (d # cs))
      else if c = CHR ''}''
      then (if d = CHR ''}'' then map_option ((#) c) (format_scan kw Literal cs) else None)
      else map_option ((#) c) (format_scan kw Literal (d # cs)))"
| "format_scan kw (Field name) (c # cs) =
     (if c = CHR ''}''
      then (if list_all is_digit name then None
            else case map_of kw name of
                   None \<Rightarrow> None
                 | Some v \<Rightarrow> map_option ((@) (py_str v)) (format_scan kw Literal cs))
      else if c \<in> set ''{.[!:'' then None
      else format_scan kw (Field (name @ [c])) cs)"

definition format_named :: formatter where
  "format_named template kw = format_scan kw Literal template"

text \<open>The value a call returned, if it returned.\<close>

definition returned :: "py_error + 'a \<Rightarrow> 'a option" where
  "returned r = (case r of Inl e \<Rightarrow> None | Inr x \<Rightarrow> Some x)"

text \<open>
  The tail that both handlers share after \<^verbatim>\<open>call_openai_chat\<close> has returned, used to
  state lemmas about them: \<open>render\<close> is the comment text around the suggestion.
\<close>

definition respond ::
  "settings \<Rightarrow> outside \<Rightarrow> string \<Rightarrow> int \<Rightarrow> (string \<Rightarrow> string) \<Rightarrow> string
   \<Rightarrow> (py_error + string option) \<times> effects \<Rightarrow> py_error option \<times> effects" where
  "respond st w repo_full number render nothing r =
     (case r of
        (Inl e, fx) \<Rightarrow> (Some e, fx)
      | (Inr None, fx) \<Rightarrow> (None, fx @ [Log INFO nothing])
      | (Inr (Some suggestion), fx) \<Rightarrow>
          if suggestion = [] then (None, fx @ [Log INFO nothing])
          else (None, safe_post_comment_and_label st w repo_full number (render suggestion) fx))"

section \<open>Concrete services and events\<close>

text \<open>
  A completion service that times out twice and then replies; the hosting service works and
  lists no changed file; the limits are those of CPython with IEEE doubles and a clock of
  \<open>2 ^ 63\<close> nanoseconds.
\<close>

definition flaky_service :: outside where
  "flaky_service =
     \<lparr>completion = (\<lambda>messages k. if k < 3 then Raises ''timeout'' else Replies ''Looks fine.''),
      repo_ok = True, pull_ok = True, files = Some [], contents = (\<lambda>p. None),
      issue_ok = True, comment_ok = True, labels = Some [], add_label_ok = True,
      create_label_ok = True, float_max = (2 ^ 53 - 1) * 2 ^ 971, sleep_max = 2 ^ 63 / 10 ^ 9\<rparr>"

text \<open>A completion service that always times out.\<close>

definition failing_service :: outside where
  "failing_service = flaky_service\<lparr>completion := (\<lambda>messages k. Raises ''timeout'')\<rparr>"

text \<open>The issue event of the specification's scenarios, and a run on it with no configuration document.\<close>

definition crash_event :: payload where
  "crash_event =
     \<lparr>pull_request = None,
      issue = Some \<lparr>entity_title = Some ''Crash on startup'', entity_body = Some [],
                     entity_number = Some 42\<rparr>,
      repository_full_name = Some ''acme/widget''\<rparr>"

definition crash_run :: invocation where
  "crash_run = \<lparr>event_path_ok = True, event_json = Some crash_event, config_file = None\<rparr>"

text \<open>A completion service whose reply is a space and a newline.\<close>

definition blank_service :: outside where
  "blank_service = flaky_service\<lparr>completion := (\<lambda>messages k. Replies ('' '' @ nl))\<rparr>"

text \<open>An event that is neither a pull request nor an issue.\<close>

definition push_event :: payload where
  "push_event = \<lparr>pull_request = None, issue = None, repository_full_name = Some ''acme/widget''\<rparr>"

text \<open>A run whose event file is not valid JSON.\<close>

definition garbled_run :: invocation where
  "garbled_run = \<lparr>event_path_ok = True, event_json = None, config_file = None\<rparr>"

text \<open>Ten changed files and a hosting service that lists them, each with a patch.\<close>

definition ten_files :: "string list" where
  "ten_files = [''a.py'', ''b.py'', ''c.py'', ''d.py'', ''e.py'', ''f.py'', ''g.py'', ''h.py'',
                ''i.py'', ''j.py'']"

definition listing_service :: "string list \<Rightarrow> outside" where
  "listing_service paths =
     flaky_service\<lparr>files := Some (map (\<lambda>p. \<lparr>filename = p, patch = Some ''+pass''\<rparr>) paths)\<rparr>"

text \<open>Settings with a credential and a backoff base of \<open>10 ^ 10\<close> seconds, as \<^verbatim>\<open>OPENAI_RETRY_BACKOFF=1e10\<close> gives.\<close>

definition patient_settings :: settings where
  "patient_settings = (default_settings None (Some ''sk''))\<lparr>RETRY_BACKOFF := Finite (10 ^ 10)\<rparr>"

text \<open>A configuration document with the line \<^verbatim>\<open>sensitive_paths:\<close> and nothing after it.\<close>

definition null_paths_config :: assistant_config where
  "null_paths_config = empty_config\<lparr>sensitive_paths := Some Not_iterable\<rparr>"

text \<open>Completion services that answer at once, with and without a final newline.\<close>

definition newline_service :: outside where
  "newline_service =
     flaky_service\<lparr>completion :=
       (\<lambda>messages k. Replies (''Likely a null dereference; request logs.'' @ nl))\<rparr>"

definition answering_service :: outside where
  "answering_service =
     flaky_service\<lparr>completion := (\<lambda>messages k. Replies ''Likely a null dereference; request logs.'')\<rparr>"

text \<open>A payload that carries both keys, as the hosting service sends for some events.\<close>

definition combined_event :: payload where
  "combined_event = crash_event\<lparr>pull_request := issue crash_event\<rparr>"

section \<open>Properties of the retrying caller\<close>

lemma sleeps_append: "sleeps (xs @ ys) = sleeps xs @ sleeps ys"
  by (simp add: sleeps_def)

lemma completion_attempts_append:
  "completion_attempts (xs @ ys) = completion_attempts xs @ completion_attempts ys"
  by (simp add: completion_attempts_def)

lemma backoff_wait_finite:
  assumes "RETRY_BACKOFF st = Finite b" and "0 \<le> b ^ k"
    and "b ^ k \<le> float_max w" and "b ^ k \<le> sleep_max w"
  shows "backoff_wait st w k = Inr (b ^ k)"
proof -
  have "\<not> float_max w < \<bar>b ^ k\<bar>"
    using assms(2,3) by linarith
  then have "float_pow w (Finite b) k = Inr (Finite (b ^ k))"
    by (simp only: float_pow.simps if_False)
  moreover have "\<not> (b ^ k < - sleep_max w \<or> sleep_max w < b ^ k)" "\<not> b ^ k < 0"
    using assms(2,4) by linarith+
  then have "time_sleep w (Finite (b ^ k)) = Inr (b ^ k)"
    by (simp only: time_sleep.simps if_False)
  ultimately show ?thesis
    by (simp add: backoff_wait_def assms(1))
qed

lemma retry_step:
  assumes "completion w messages a = Raises e" and "backoff_wait st w a = Inr x"
  shows "retry_loop st w messages (Suc r) a le fx =
         retry_loop st w messages r (Suc a) (Some e) (fx @ failed_round st messages x)"
proof (cases "float_pow w (RETRY_BACKOFF st) a")
  case (Inl err)
  with assms(2) show ?thesis
    by (simp add: backoff_wait_def)
next
  case (Inr wait)
  with assms(2) have "time_sleep w wait = Inr x"
    by (simp add: backoff_wait_def)
  with Inr assms(1) show ?thesis
    by (simp add: Let_def failed_round_def)
qed

lemma retry_loop_all_fail:
  "(\<And>k. a \<le> k \<Longrightarrow> k < a + r \<Longrightarrow> backoff_wait st w k = Inr (x k)) \<Longrightarrow>
   (\<And>k. a \<le> k \<Longrightarrow> k < a + r \<Longrightarrow> \<exists>e. completion w messages k = Raises e) \<Longrightarrow>
   \<exists>le'. retry_loop st w messages r a le fx =
     (Exhausted le', fx @ concat (map (\<lambda>k. failed_round st messages (x k)) [a..<a + r]))
     \<and> (0 < r \<longrightarrow> le' \<noteq> None) \<and> (r = 0 \<longrightarrow> le' = le)"
proof (induction r arbitrary: a le fx)
  case 0
  then show ?case by simp
next
  case (Suc r)
  from Suc.prems(2)[of a] obtain e where e: "completion w messages a = Raises e"
    by auto
  have wait: "backoff_wait st w a = Inr (x a)"
    using Suc.prems(1)[of a] by simp
  have waits: "\<And>k. Suc a \<le> k \<Longrightarrow> k < Suc a + r \<Longrightarrow> backoff_wait st w k = Inr (x k)"
    using Suc.prems(1) by simp
  have later: "\<And>k. Suc a \<le> k \<Longrightarrow> k < Suc a + r \<Longrightarrow> \<exists>e. completion w messages k = Raises e"
    using Suc.prems(2) by simp
  from Suc.IH[OF waits later, where le = "Some e" and fx = "fx @ failed_round st messages (x a)"]
  obtain le' where le':
    "retry_loop st w messages r (Suc a) (Some e) (fx @ failed_round st messages (x a)) =
     (Exhausted le',
      (fx @ failed_round st messages (x a))
        @ concat (map (\<lambda>k. failed_round st messages (x k)) [Suc a..<Suc a + r]))"
    "0 < r \<longrightarrow> le' \<noteq> None" "r = 0 \<longrightarrow> le' = Some e"
    by blast
  have unfold_upt: "[a..<a + Suc r] = a # [Suc a..<Suc a + r]"
    by (simp add: upt_conv_Cons)
  have trace: "(fx @ failed_round st messages (x a))
        @ concat (map (\<lambda>k. failed_round st messages (x k)) [Suc a..<Suc a + r])
      = fx @ concat (map (\<lambda>k. failed_round st messages (x k)) [a..<a + Suc r])"
    unfolding unfold_upt by simp
  have "le' \<noteq> None"
    using le'(2,3) by (cases "r = 0") auto
  then show ?case
    using retry_step[OF e wait, where r = r and le = le and fx = fx] le'(1) trace by auto
qed

lemma retry_loop_then_success:
  "(\<And>k. a \<le> k \<Longrightarrow> k < a + r \<Longrightarrow> backoff_wait st w k = Inr (x k)) \<Longrightarrow>
   (\<And>k. a \<le> k \<Longrightarrow> k < a + r \<Longrightarrow> \<exists>e. completion w messages k = Raises e) \<Longrightarrow>
   completion w messages (a + r) = Replies c \<Longrightarrow>
   retry_loop st w messages (Suc (r + y)) a le fx =
     (Returned (strip c),
      fx @ concat (map (\<lambda>k. failed_round st messages (x k)) [a..<a + r])
         @ [Net (create_call st messages) True])"
proof (induction r arbitrary: a le fx)
  case 0
  then show ?case by simp
next
  case (Suc r)
  from Suc.prems(2)[of a] obtain e where e: "completion w messages a = Raises e"
    by auto
  have wait: "backoff_wait st w a = Inr (x a)"
    using Suc.prems(1)[of a] by simp
  have waits: "\<And>k. Suc a \<le> k \<Longrightarrow> k < Suc a + r \<Longrightarrow> backoff_wait st w k = Inr (x k)"
    using Suc.prems(1) by simp
  have later: "\<And>k. Suc a \<le> k \<Longrightarrow> k < Suc a + r \<Longrightarrow> \<exists>e. completion w messages k = Raises e"
    using Suc.prems(2) by simp
  have final: "completion w messages (Suc a + r) = Replies c"
    using Suc.prems(3) by simp
  have unfold_upt: "[a..<a + Suc r] = a # [Suc a..<Suc a + r]"
    by (simp add: upt_conv_Cons)
  have "retry_loop st w messages (Suc (Suc r + y)) a le fx =
      retry_loop st w messages (Suc (r + y)) (Suc a) (Some e) (fx @ failed_round st messages (x a))"
    using retry_step[OF e wait, where r = "Suc (r + y)" and le = le and fx = fx] by simp
  also have "\<dots> = (Returned (strip c),
      (fx @ failed_round st messages (x a))
        @ concat (map (\<lambda>k. failed_round st messages (x k)) [Suc a..<Suc a + r])
        @ [Net (create_call st messages) True])"
    by (rule Suc.IH[OF waits later final])
  also have "\<dots> = (Returned (strip c),
      fx @ concat (map (\<lambda>k. failed_round st messages (x k)) [a..<a + Suc r])
         @ [Net (create_call st messages) True])"
    unfolding unfold_upt by simp
  finally show ?case .
qed

lemma sleeps_failed_rounds:
  "sleeps (concat (map (\<lambda>k. failed_round st messages (x k)) ks)) = map x ks"
  by (induction ks) (simp_all add: sleeps_def failed_round_def)

lemma completion_attempts_failed_rounds:
  "completion_attempts (concat (map (\<lambda>k. failed_round st messages (x k)) ks)) =
     replicate (length ks) (create_call st messages)"
  by (induction ks) (simp_all add: completion_attempts_def failed_round_def create_call_def)

lemma call_openai_chat_reply_at:
  assumes "truthy (OPENAI_API_KEY st)"
    and "1 \<le> j" and "int j \<le> RETRY_ATTEMPTS st"
    and "\<And>k. 1 \<le> k \<Longrightarrow> k < j \<Longrightarrow> backoff_wait st w k = Inr (x k)"
    and "\<And>k. 1 \<le> k \<Longrightarrow> k < j \<Longrightarrow> \<exists>e. completion w messages k = Raises e"
    and "completion w messages j = Replies c"
  shows "call_openai_chat st w messages fx =
           (Inr (Some (strip c)),
            fx @ concat (map (\<lambda>k. failed_round st messages (x k)) [1..<j])
               @ [Net (create_call st messages) True])"
proof -
  define r where "r = j - 1"
  define y where "y = nat (RETRY_ATTEMPTS st) - j"
  have n: "nat (RETRY_ATTEMPTS st) = Suc (r + y)" "1 + r = j"
    using assms(2,3) by (simp_all add: r_def y_def)
  have waits: "\<And>k. 1 \<le> k \<Longrightarrow> k < 1 + r \<Longrightarrow> backoff_wait st w k = Inr (x k)"
    using assms(4) n(2) by simp
  have fails: "\<And>k. 1 \<le> k \<Longrightarrow> k < 1 + r \<Longrightarrow> \<exists>e. completion w messages k = Raises e"
    using assms(5) n(2) by simp
  have final: "completion w messages (1 + r) = Replies c"
    using assms(6) n(2) by simp
  have "retry_loop st w messages (Suc (r + y)) 1 None fx =
     (Returned (strip c),
      fx @ concat (map (\<lambda>k. failed_round st messages (x k)) [1..<1 + r])
         @ [Net (create_call st messages) True])"
    by (rule retry_loop_then_success[OF waits fails final])
  then have "retry_loop st w messages (nat (RETRY_ATTEMPTS st)) 1 None fx =
     (Returned (strip c),
      fx @ concat (map (\<lambda>k. failed_round st messages (x k)) [1..<j])
         @ [Net (create_call st messages) True])"
    by (simp only: n(1)[symmetric] n(2))
  then show ?thesis
    using assms(1) by (simp add: call_openai_chat_def)
qed

text \<open>
  Claim C1, as amended. With a credential and \<^verbatim>\<open>RETRY_ATTEMPTS\<close> at least 1, let
  \<^verbatim>\<open>RETRY_BACKOFF\<close> be a finite float \<open>b\<close> such that every wait \<open>b ^ k\<close> for
  \<open>k = 1, \<dots>, RETRY_ATTEMPTS - 1\<close> is not negative, does not overflow the floats and is
  a wait that \<^verbatim>\<open>time.sleep\<close> accepts. If the completion request raises on each of the
  first \<^verbatim>\<open>RETRY_ATTEMPTS - 1\<close> attempts and replies on the last one, then
  \<open>call_openai_chat\<close> returns the stripped reply; its trace is one failed round (request,
  warning, sleep of \<^verbatim>\<open>RETRY_BACKOFF ** attempt\<close>) per failed attempt, then the
  successful request and nothing after it. So it sleeps \<^verbatim>\<open>RETRY_BACKOFF ** k\<close> for
  \<open>k = 1, \<dots>, RETRY_ATTEMPTS - 1\<close>, between consecutive attempts only, and makes exactly
  \<^verbatim>\<open>RETRY_ATTEMPTS\<close> requests.
\<close>

theorem call_openai_chat_succeeds_on_last_attempt:
  assumes "truthy (OPENAI_API_KEY st)" and "1 \<le> RETRY_ATTEMPTS st"
    and "RETRY_BACKOFF st = Finite b"
    and "\<forall>k. 1 \<le> k \<and> k < nat (RETRY_ATTEMPTS st) \<longrightarrow>
           0 \<le> b ^ k \<and> b ^ k \<le> float_max w \<and> b ^ k \<le> sleep_max w"
    and "\<forall>k. 1 \<le> k \<and> k < nat (RETRY_ATTEMPTS st) \<longrightarrow> (\<exists>e. completion w messages k = Raises e)"
    and "completion w messages (nat (RETRY_ATTEMPTS st)) = Replies c"
  shows "call_openai_chat st w messages fx =
           (Inr (Some (strip c)),
            fx @ concat (map (\<lambda>k. failed_round st messages (b ^ k)) [1..<nat (RETRY_ATTEMPTS st)])
               @ [Net (create_call st messages) True])
         \<and> sleeps (snd (call_openai_chat st w messages fx)) =
             sleeps fx @ map (\<lambda>k. b ^ k) [1..<nat (RETRY_ATTEMPTS st)]
         \<and> completion_attempts (snd (call_openai_chat st w messages fx)) =
             completion_attempts fx @ replicate (nat (RETRY_ATTEMPTS st)) (create_call st messages)"
proof -
  let ?n = "nat (RETRY_ATTEMPTS st)"
  have n: "1 \<le> ?n" "int ?n \<le> RETRY_ATTEMPTS st"
    using assms(2) by simp_all
  have waits: "\<And>k. 1 \<le> k \<Longrightarrow> k < ?n \<Longrightarrow> backoff_wait st w k = Inr (b ^ k)"
    using assms(4) by (simp add: backoff_wait_finite[OF assms(3)])
  have fails: "\<And>k. 1 \<le> k \<Longrightarrow> k < ?n \<Longrightarrow> \<exists>e. completion w messages k = Raises e"
    using assms(5) by simp
  have result: "call_openai_chat st w messages fx =
           (Inr (Some (strip c)),
            fx @ concat (map (\<lambda>k. failed_round st messages (b ^ k)) [1..<?n])
               @ [Net (create_call st messages) True])"
    by (rule call_openai_chat_reply_at[OF assms(1) n waits fails assms(6)])
  have rep: "replicate (?n - Suc 0) (create_call st messages) @ [create_call st messages] =
        replicate ?n (create_call st messages)"
    using n(1) by (cases ?n) (simp_all add: replicate_append_same)
  have last_attempt: "completion_attempts [Net (create_call st messages) True] = [create_call st messages]"
    by (simp add: completion_attempts_def create_call_def)
  have no_sleep: "sleeps [Net (create_call st messages) True] = []"
    by (simp add: sleeps_def)
  have s: "sleeps (snd (call_openai_chat st w messages fx)) = sleeps fx @ map (\<lambda>k. b ^ k) [1..<?n]"
    unfolding result by (simp add: sleeps_append sleeps_failed_rounds no_sleep)
  have a: "completion_attempts (snd (call_openai_chat st w messages fx)) =
             completion_attempts fx @ replicate ?n (create_call st messages)"
    unfolding result
    by (simp add: completion_attempts_append completion_attempts_failed_rounds last_attempt rep)
  show ?thesis
    using result s a by blast
qed

lemma default_limits:
  "8 \<le> float_max flaky_service" "8 \<le> sleep_max flaky_service"
  "sleep_max flaky_service < 10 ^ 10" "10 ^ 10 \<le> float_max flaky_service"
  by (simp_all add: flaky_service_def)

text \<open>
  The defaults (3 attempts, base 2) with two time-outs before the reply: the sleeps are 2s
  and 4s.
\<close>

theorem call_openai_chat_succeeds_on_last_attempt_witness:
  "call_openai_chat (default_settings None (Some ''sk'')) flaky_service [] [] =
     (Inr (Some ''Looks fine.''),
      [Net (ChatCompletion_create ''gpt-4o'' [] 0 600) False, Log WARNING retry_warning, Sleep 2,
       Net (ChatCompletion_create ''gpt-4o'' [] 0 600) False, Log WARNING retry_warning, Sleep 4,
       Net (ChatCompletion_create ''gpt-4o'' [] 0 600) True])
   \<and> sleeps (snd (call_openai_chat (default_settings None (Some ''sk'')) flaky_service [] [])) = [2, 4]"
proof -
  let ?st = "default_settings None (Some ''sk'')"
  have h1: "truthy (OPENAI_API_KEY ?st)" by (simp add: default_settings_def truthy_def)
  have h2: "1 \<le> RETRY_ATTEMPTS ?st" by (simp add: default_settings_def)
  have h3: "RETRY_BACKOFF ?st = Finite 2" by (simp add: default_settings_def)
  have small: "(2::real) ^ k \<le> 8" if "k < 3" for k
  proof -
    have "(2::real) ^ k \<le> 2 ^ 3"
      using that by (intro power_increasing) simp_all
    then show ?thesis by simp
  qed
  have h4: "\<forall>k. 1 \<le> k \<and> k < nat (RETRY_ATTEMPTS ?st) \<longrightarrow>
      0 \<le> (2::real) ^ k \<and> 2 ^ k \<le> float_max flaky_service \<and> 2 ^ k \<le> sleep_max flaky_service"
    using small default_limits(1,2) by (fastforce simp: default_settings_def)
  have h5: "\<forall>k. 1 \<le> k \<and> k < nat (RETRY_ATTEMPTS ?st) \<longrightarrow> (\<exists>e. completion flaky_service [] k = Raises e)"
    by (simp add: default_settings_def flaky_service_def)
  have h6: "completion flaky_service [] (nat (RETRY_ATTEMPTS ?st)) = Replies ''Looks fine.''"
    by (simp add: default_settings_def flaky_service_def)
  have upt: "[1..<3] = [1::nat, 2]" "[Suc 0..<3] = [Suc 0, 2]" by (simp_all add: upt_rec)
  have s: "strip ''Looks fine.'' = ''Looks fine.''" by (simp add: strip_def is_space_def)
  show ?thesis
    using call_openai_chat_succeeds_on_last_attempt[OF h1 h2 h3 h4 h5 h6, of "[]"]
    by (simp add: default_settings_def upt failed_round_def create_call_def s sleeps_def)
qed

lemma waits_at_defaults:
  assumes "8 \<le> float_max w" and "8 \<le> sleep_max w"
  shows "backoff_wait (default_settings token key) w 1 = Inr 2"
    and "backoff_wait (default_settings token key) w 2 = Inr 4"
    and "backoff_wait (default_settings token key) w 3 = Inr 8"
proof -
  have b: "RETRY_BACKOFF (default_settings token key) = Finite 2"
    by (simp add: default_settings_def)
  show "backoff_wait (default_settings token key) w 1 = Inr 2"
    using backoff_wait_finite[OF b, of 1 w] assms by simp
  show "backoff_wait (default_settings token key) w 2 = Inr 4"
    using backoff_wait_finite[OF b, of 2 w] assms by simp
  show "backoff_wait (default_settings token key) w 3 = Inr 8"
    using backoff_wait_finite[OF b, of 3 w] assms by simp
qed

lemmas first_rounds_at_defaults = waits_at_defaults[OF default_limits(1,2)]

text \<open>
  Claim C1 as stated lists 2s, 4s, 8s for the defaults, and bounds neither the base nor
  the waits. In its scenario at the defaults the third attempt succeeds, so there is no
  third sleep. And with a base of \<open>10 ^ 10\<close> seconds and the same service, the first wait
  is refused by \<^verbatim>\<open>time.sleep\<close>: the \<^verbatim>\<open>OverflowError\<close> leaves \<open>call_openai_chat\<close> after
  the first failed attempt, and no reply is returned.
\<close>

theorem call_openai_chat_defaults_sleep_twice:
  "sleeps (snd (call_openai_chat (default_settings None (Some ''sk'')) flaky_service [] [])) = [2, 4]
   \<and> sleeps (snd (call_openai_chat (default_settings None (Some ''sk'')) flaky_service [] [])) \<noteq> [2, 4, 8]
   \<and> call_openai_chat patient_settings flaky_service [] [] =
       (Inl OverflowError,
        [Net (ChatCompletion_create ''gpt-4o'' [] 0 600) False, Log WARNING retry_warning])"
proof -
  let ?st = "default_settings None (Some ''sk'')"
  have first: "completion flaky_service [] 1 = Raises ''timeout''"
    and second: "completion flaky_service [] 2 = Raises ''timeout''"
    and third: "completion flaky_service [] 3 = Replies ''Looks fine.''"
    by (simp_all add: flaky_service_def)
  have "retry_loop ?st flaky_service [] 3 1 None [] =
      (Returned (strip ''Looks fine.''),
       failed_round ?st [] 2 @ failed_round ?st [] 4 @ [Net (create_call ?st []) True])"
    using retry_step[OF first first_rounds_at_defaults(1), where r = 2 and le = None and fx = "[]"]
      retry_step[OF second[unfolded numeral_2_eq_2] first_rounds_at_defaults(2)[unfolded numeral_2_eq_2],
        where r = 1 and le = "Some ''timeout''" and fx = "failed_round ?st [] 2"] third
    by (simp add: numeral_3_eq_3 numeral_2_eq_2)
  then have "sleeps (snd (call_openai_chat ?st flaky_service [] [])) = [2, 4]"
    by (simp add: call_openai_chat_def default_settings_def truthy_def failed_round_def sleeps_def)
  moreover have "float_pow flaky_service (Finite (10 ^ 10)) 1 = Inr (Finite (10 ^ 10))"
    using default_limits(4) by (simp add: not_less)
  then have "call_openai_chat patient_settings flaky_service [] [] =
       (Inl OverflowError,
        [Net (ChatCompletion_create ''gpt-4o'' [] 0 600) False, Log WARNING retry_warning])"
    using default_limits(3) first
    by (simp add: call_openai_chat_def patient_settings_def default_settings_def truthy_def
        numeral_3_eq_3 Let_def create_call_def)
  ultimately show ?thesis by simp
qed

section \<open>The handlers around the completion call\<close>

lemma posted_append: "posted (xs @ ys) = posted xs @ posted ys"
  by (simp add: posted_def)

lemma attached_append: "attached (xs @ ys) = attached xs @ attached ys"
  by (simp add: attached_def)

lemma requests_append: "requests (xs @ ys) = requests xs @ requests ys"
  by (simp add: requests_def)

lemma silent_event: "silent e \<Longrightarrow> comment_of e = [] \<and> label_of e = [] \<and> completion_of e = []"
  by (cases e rule: silent.cases) simp_all

lemma silent_trace:
  "list_all silent ex \<Longrightarrow> posted ex = [] \<and> attached ex = [] \<and> completion_attempts ex = []"
  by (induction ex) (simp_all add: posted_def attached_def completion_attempts_def silent_event)

lemma fetch_changed_files_silent:
  "fetch_changed_files_for_pr w pr_number fx = (paths, fx') \<Longrightarrow> \<exists>ex. fx' = fx @ ex \<and> list_all silent ex"
  by (auto simp: fetch_changed_files_for_pr_def Let_def split: if_splits option.splits)

lemma get_file_snippet_silent:
  "get_file_snippet_for_pr w repo_obj pr_number path max_lines fx = (snippet, fx') \<Longrightarrow>
   \<exists>ex. fx' = fx @ ex \<and> list_all silent ex"
  by (auto simp: get_file_snippet_for_pr_def Let_def split: if_splits option.splits)

lemma snippet_loop_silent:
  "snippet_loop w repo_obj pr_number max_lines paths snippets fx = (snippets', fx') \<Longrightarrow>
   \<exists>ex. fx' = fx @ ex \<and> list_all silent ex"
proof (induction paths arbitrary: snippets fx)
  case Nil
  then show ?case by simp
next
  case (Cons path paths)
  obtain snippet fx1 where one: "get_file_snippet_for_pr w repo_obj pr_number path max_lines fx = (snippet, fx1)"
    by (cases "get_file_snippet_for_pr w repo_obj pr_number path max_lines fx")
  then obtain ex1 where ex1: "fx1 = fx @ ex1" "list_all silent ex1"
    using get_file_snippet_silent by blast
  from Cons.prems one
  have "snippet_loop w repo_obj pr_number max_lines paths (AList.update path snippet snippets) fx1 = (snippets', fx')"
    by simp
  then obtain ex2 where ex2: "fx' = fx1 @ ex2" "list_all silent ex2"
    using Cons.IH by blast
  have "fx' = fx @ (ex1 @ ex2)" "list_all silent (ex1 @ ex2)"
    using ex1 ex2 by simp_all
  then show ?case by blast
qed

lemma pr_snippets_silent:
  "pr_snippets st cfg w repo_obj pr_number changed_files fx = (snippets, fx') \<Longrightarrow>
   \<exists>ex. fx' = fx @ ex \<and> list_all silent ex"
  unfolding pr_snippets_def Let_def by (rule snippet_loop_silent)

lemma build_pr_prompt_trace:
  "snd (build_pr_prompt fmt title body changed_files snippets repo_full pr_number cfg fx) = fx
   \<or> snd (build_pr_prompt fmt title body changed_files snippets repo_full pr_number cfg fx) =
       fx @ [Log ERROR ''Failed to format pr_prompt template; falling back to default.'']"
proof (cases "sensitive_paths cfg")
  case None
  then show ?thesis
    by (simp add: build_pr_prompt_def Let_def split_beta split: option.splits)
next
  case (Some v)
  then show ?thesis
    by (cases v) (simp_all add: build_pr_prompt_def Let_def split_beta split: option.splits)
qed

lemma build_pr_prompt_silent:
  assumes "build_pr_prompt fmt title body changed_files snippets repo_full pr_number cfg fx = (built, fx')"
  shows "\<exists>ex. fx' = fx @ ex \<and> list_all silent ex"
proof -
  have "fx' = fx @ [] \<or> fx' = fx @ [Log ERROR ''Failed to format pr_prompt template; falling back to default.'']"
    using build_pr_prompt_trace[of fmt title body changed_files snippets repo_full pr_number cfg fx] assms
    by simp
  moreover have "list_all silent []"
    "list_all silent [Log ERROR ''Failed to format pr_prompt template; falling back to default.'']"
    by simp_all
  ultimately show ?thesis by blast
qed

lemma build_pr_prompt_not_iterable:
  "sensitive_paths cfg = Some Not_iterable \<Longrightarrow>
   fst (build_pr_prompt fmt title body changed_files snippets repo_full pr_number cfg fx) = Inl TypeError"
  by (simp add: build_pr_prompt_def Let_def split_beta)

lemma build_pr_prompt_returns:
  assumes "sensitive_paths cfg \<noteq> Some Not_iterable"
  shows "\<exists>ms. fst (build_pr_prompt fmt title body changed_files snippets repo_full pr_number cfg fx) = Inr ms
           \<and> map role ms = [System, User, User]"
proof (cases "sensitive_paths cfg")
  case None
  then show ?thesis
    by (simp add: build_pr_prompt_def Let_def split_beta)
next
  case (Some v)
  with assms obtain ps where "sensitive_paths cfg = Some (Items ps)"
    by (cases v) auto
  then show ?thesis
    by (simp add: build_pr_prompt_def Let_def split_beta)
qed

lemma build_issue_prompt_silent:
  "build_issue_prompt fmt title body repo_full issue_number cfg fx = (messages, fx') \<Longrightarrow>
   \<exists>ex. fx' = fx @ ex \<and> list_all silent ex"
  by (auto simp: build_issue_prompt_def Let_def split: if_splits option.splits)

lemma handle_issue_abort:
  assumes "\<not> (\<exists>repo_full n. repository_full_name event = Some repo_full \<and> repo_full \<noteq> []
        \<and> entity_number (case issue event of None \<Rightarrow> empty_entity | Some e \<Rightarrow> e) = Some n)"
  shows "handle_issue st cfg fmt w event fx =
     (None, fx @ [Log ERROR ''Issue payload missing repository or issue number; aborting.''])"
proof (cases "repository_full_name event")
  case None
  then show ?thesis
    by (simp add: handle_issue_def Let_def)
next
  case (Some repo_full)
  show ?thesis
  proof (cases "repo_full = []")
    case True
    with Some show ?thesis
      by (simp add: handle_issue_def Let_def)
  next
    case False
    with Some assms
    have "entity_number (case issue event of None \<Rightarrow> empty_entity | Some e \<Rightarrow> e) = None"
      by (cases "entity_number (case issue event of None \<Rightarrow> empty_entity | Some e \<Rightarrow> e)") auto
    with Some False show ?thesis
      by (simp add: handle_issue_def Let_def)
  qed
qed

lemma handle_issue_main:
  assumes "repository_full_name event = Some repo_full" and "repo_full \<noteq> []"
    and "entity_number (case issue event of None \<Rightarrow> empty_entity | Some e \<Rightarrow> e) = Some n"
  shows "\<exists>ex messages. list_all silent ex
        \<and> handle_issue st cfg fmt w event fx =
            respond st w repo_full n issue_comment ''No suggestion returned from OpenAI for issue.''
              (call_openai_chat st w messages (fx @ ex))"
proof -
  define iss where "iss = (case issue event of None \<Rightarrow> empty_entity | Some e \<Rightarrow> e)"
  define title where "title = (case entity_title iss of None \<Rightarrow> [] | Some t \<Rightarrow> t)"
  define body where "body = (case entity_body iss of None \<Rightarrow> [] | Some b \<Rightarrow> b)"
  have num: "entity_number iss = Some n"
    using assms(3) by (simp add: iss_def)
  let ?fx1 = "fx @ [Log INFO ''Handling issue %s#%s'']"
  obtain messages fx2 where b: "build_issue_prompt fmt title body repo_full n cfg ?fx1 = (messages, fx2)"
    by (cases "build_issue_prompt fmt title body repo_full n cfg ?fx1")
  then obtain ex where ex: "fx2 = ?fx1 @ ex" "list_all silent ex"
    using build_issue_prompt_silent by blast
  have "handle_issue st cfg fmt w event fx =
          respond st w repo_full n issue_comment ''No suggestion returned from OpenAI for issue.''
            (call_openai_chat st w messages fx2)"
    by (simp add: handle_issue_def Let_def iss_def[symmetric] title_def[symmetric]
        body_def[symmetric] respond_def assms(1,2) num b)
  moreover have "fx2 = fx @ (Log INFO ''Handling issue %s#%s'' # ex)"
    "list_all silent (Log INFO ''Handling issue %s#%s'' # ex)"
    using ex by simp_all
  ultimately show ?thesis by blast
qed

lemma handle_pull_request_abort:
  assumes "\<not> (\<exists>repo_full n. repository_full_name event = Some repo_full \<and> repo_full \<noteq> []
        \<and> entity_number (case pull_request event of None \<Rightarrow> empty_entity | Some e \<Rightarrow> e) = Some n)"
  shows "handle_pull_request st cfg fmt w event fx =
     (None, fx @ [Log ERROR ''PR payload missing repository or pr number; aborting.''])"
proof (cases "repository_full_name event")
  case None
  then show ?thesis
    by (simp add: handle_pull_request_def Let_def)
next
  case (Some repo_full)
  show ?thesis
  proof (cases "repo_full = []")
    case True
    with Some show ?thesis
      by (simp add: handle_pull_request_def Let_def)
  next
    case False
    with Some assms
    have "entity_number (case pull_request event of None \<Rightarrow> empty_entity | Some e \<Rightarrow> e) = None"
      by (cases "entity_number (case pull_request event of None \<Rightarrow> empty_entity | Some e \<Rightarrow> e)") auto
    with Some False show ?thesis
      by (simp add: handle_pull_request_def Let_def)
  qed
qed

lemma handle_pull_request_no_repo:
  assumes "repository_full_name event = Some repo_full" and "repo_full \<noteq> []"
    and "entity_number (case pull_request event of None \<Rightarrow> empty_entity | Some e \<Rightarrow> e) = Some n"
    and "truthy (GITHUB_TOKEN st)" and "\<not> repo_ok w"
  shows "handle_pull_request st cfg fmt w event fx =
     (Some GithubException, fx @ [Log INFO ''Handling PR %s#%s'', Net (Get_repo repo_full) False])"
  using assms by (simp add: handle_pull_request_def Let_def)

lemma handle_pull_request_main:
  assumes "repository_full_name event = Some repo_full" and "repo_full \<noteq> []"
    and "entity_number (case pull_request event of None \<Rightarrow> empty_entity | Some e \<Rightarrow> e) = Some n"
    and "\<not> (truthy (GITHUB_TOKEN st) \<and> \<not> repo_ok w)"
  shows "\<exists>ex. list_all silent ex
        \<and> (if sensitive_paths cfg = Some Not_iterable
           then handle_pull_request st cfg fmt w event fx = (Some TypeError, fx @ ex)
           else (\<exists>messages. handle_pull_request st cfg fmt w event fx =
                   respond st w repo_full n pr_comment ''No suggestion returned from OpenAI for PR.''
                     (call_openai_chat st w messages (fx @ ex))))"
proof -
  define pr where "pr = (case pull_request event of None \<Rightarrow> empty_entity | Some e \<Rightarrow> e)"
  define title where "title = (case entity_title pr of None \<Rightarrow> [] | Some t \<Rightarrow> t)"
  define body where "body = (case entity_body pr of None \<Rightarrow> [] | Some b \<Rightarrow> b)"
  have num: "entity_number pr = Some n"
    using assms(3) by (simp add: pr_def)
  have finish: "\<exists>ex. list_all silent ex
        \<and> (if sensitive_paths cfg = Some Not_iterable
           then handle_pull_request st cfg fmt w event fx = (Some TypeError, fx @ ex)
           else (\<exists>messages. handle_pull_request st cfg fmt w event fx =
                   respond st w repo_full n pr_comment ''No suggestion returned from OpenAI for PR.''
                     (call_openai_chat st w messages (fx @ ex))))"
    if quiet: "list_all silent pre"
      and b: "build_pr_prompt fmt title body changed_files snippets repo_full n cfg (fx @ pre) = (built, fx5)"
      and h: "handle_pull_request st cfg fmt w event fx =
          (case built of
             Inl e \<Rightarrow> (Some e, fx5)
           | Inr messages \<Rightarrow>
               respond st w repo_full n pr_comment ''No suggestion returned from OpenAI for PR.''
                 (call_openai_chat st w messages fx5))"
    for pre changed_files snippets built fx5
  proof -
    from b obtain ex5 where ex5: "fx5 = (fx @ pre) @ ex5" "list_all silent ex5"
      using build_pr_prompt_silent by blast
    have all: "fx5 = fx @ (pre @ ex5)" "list_all silent (pre @ ex5)"
      using ex5 quiet by simp_all
    show ?thesis
    proof (cases "sensitive_paths cfg = Some Not_iterable")
      case True
      have "built = Inl TypeError"
        using build_pr_prompt_not_iterable[OF True, of fmt title body changed_files snippets repo_full n
            "fx @ pre"] b by simp
      then have "handle_pull_request st cfg fmt w event fx = (Some TypeError, fx @ (pre @ ex5))"
        using h all(1) by simp
      with all(2) True show ?thesis
        by (intro exI[of _ "pre @ ex5"]) simp
    next
      case False
      from build_pr_prompt_returns[OF False, of fmt title body changed_files snippets repo_full n
          "fx @ pre"] b
      obtain ms where "built = Inr ms"
        by auto
      then have "handle_pull_request st cfg fmt w event fx =
          respond st w repo_full n pr_comment ''No suggestion returned from OpenAI for PR.''
            (call_openai_chat st w ms (fx @ (pre @ ex5)))"
        using h all(1) by simp
      then have "\<exists>messages. handle_pull_request st cfg fmt w event fx =
          respond st w repo_full n pr_comment ''No suggestion returned from OpenAI for PR.''
            (call_openai_chat st w messages (fx @ (pre @ ex5)))"
        by blast
      with all(2) False show ?thesis
        by (intro exI[of _ "pre @ ex5"]) simp
    qed
  qed
  show ?thesis
  proof (cases "truthy (GITHUB_TOKEN st)")
    case True
    then have ok: "repo_ok w"
      using assms(4) by simp
    let ?fx2 = "fx @ [Log INFO ''Handling PR %s#%s'', Net (Get_repo repo_full) True]"
    obtain changed_files fx3 where f: "fetch_changed_files_for_pr w n ?fx2 = (changed_files, fx3)"
      by (cases "fetch_changed_files_for_pr w n ?fx2")
    then obtain ex3 where ex3: "fx3 = ?fx2 @ ex3" "list_all silent ex3"
      using fetch_changed_files_silent by blast
    obtain snippets fx4 where sn: "pr_snippets st cfg w True n changed_files fx3 = (snippets, fx4)"
      by (cases "pr_snippets st cfg w True n changed_files fx3")
    then obtain ex4 where ex4: "fx4 = fx3 @ ex4" "list_all silent ex4"
      using pr_snippets_silent by blast
    let ?pre = "[Log INFO ''Handling PR %s#%s'', Net (Get_repo repo_full) True] @ ex3 @ ex4"
    have pre: "fx4 = fx @ ?pre" "list_all silent ?pre"
      using ex3 ex4 by simp_all
    obtain built fx5 where
      b: "build_pr_prompt fmt title body changed_files snippets repo_full n cfg fx4 = (built, fx5)"
      by (cases "build_pr_prompt fmt title body changed_files snippets repo_full n cfg fx4")
    have "handle_pull_request st cfg fmt w event fx =
          (case built of
             Inl e \<Rightarrow> (Some e, fx5)
           | Inr messages \<Rightarrow>
               respond st w repo_full n pr_comment ''No suggestion returned from OpenAI for PR.''
                 (call_openai_chat st w messages fx5))"
      by (cases built)
        (simp_all add: handle_pull_request_def Let_def pr_def[symmetric] title_def[symmetric]
          body_def[symmetric] respond_def assms(1,2) num True ok f sn b)
    then show ?thesis
      using finish[OF pre(2) b[unfolded pre(1)]] by blast
  next
    case False
    let ?fx2 = "fx @ [Log INFO ''Handling PR %s#%s'']"
    obtain snippets fx4 where sn: "pr_snippets st cfg w False n [] ?fx2 = (snippets, fx4)"
      by (cases "pr_snippets st cfg w False n [] ?fx2")
    then obtain ex4 where ex4: "fx4 = ?fx2 @ ex4" "list_all silent ex4"
      using pr_snippets_silent by blast
    let ?pre = "[Log INFO ''Handling PR %s#%s''] @ ex4"
    have pre: "fx4 = fx @ ?pre" "list_all silent ?pre"
      using ex4 by simp_all
    obtain built fx5 where
      b: "build_pr_prompt fmt title body [] snippets repo_full n cfg fx4 = (built, fx5)"
      by (cases "build_pr_prompt fmt title body [] snippets repo_full n cfg fx4")
    have "handle_pull_request st cfg fmt w event fx =
          (case built of
             Inl e \<Rightarrow> (Some e, fx5)
           | Inr messages \<Rightarrow>
               respond st w repo_full n pr_comment ''No suggestion returned from OpenAI for PR.''
                 (call_openai_chat st w messages fx5))"
      by (cases built)
        (simp_all add: handle_pull_request_def Let_def pr_def[symmetric] title_def[symmetric]
          body_def[symmetric] respond_def assms(1,2) num False sn b)
    then show ?thesis
      using finish[OF pre(2) b[unfolded pre(1)]] by blast
  qed
qed

lemma respond_without_suggestion:
  assumes "call_openai_chat st w messages fx0 = (r, fx0 @ cx)"
    and "r = Inr None \<or> r = Inr (Some []) \<or> (\<exists>e. r = Inl e)"
  shows "\<exists>tail. snd (respond st w repo_full n render nothing (call_openai_chat st w messages fx0)) = fx0 @ cx @ tail
           \<and> list_all silent tail"
  using assms by (auto simp: respond_def)

section \<open>Exhaustion of the completion caller\<close>

lemma call_openai_chat_without_key:
  "\<not> truthy (OPENAI_API_KEY st) \<Longrightarrow>
   call_openai_chat st w messages fx =
     (Inr None, fx @ [Log INFO ''Skipping OpenAI call because OPENAI_API_KEY is not set.''])"
  by (simp add: call_openai_chat_def)

lemma call_openai_chat_exhausted:
  assumes "truthy (OPENAI_API_KEY st)" and "1 \<le> RETRY_ATTEMPTS st"
    and "\<And>k. 1 \<le> k \<Longrightarrow> k \<le> nat (RETRY_ATTEMPTS st) \<Longrightarrow> backoff_wait st w k = Inr (x k)"
    and "\<And>k. 1 \<le> k \<Longrightarrow> k \<le> nat (RETRY_ATTEMPTS st) \<Longrightarrow> \<exists>e. completion w messages k = Raises e"
  shows "call_openai_chat st w messages fx =
           (Inr None,
            fx @ concat (map (\<lambda>k. failed_round st messages (x k)) [1..<1 + nat (RETRY_ATTEMPTS st)])
               @ [Log ERROR ''OpenAI calls failed after %d attempts: %s''])"
proof -
  have waits: "\<And>k. 1 \<le> k \<Longrightarrow> k < 1 + nat (RETRY_ATTEMPTS st) \<Longrightarrow> backoff_wait st w k = Inr (x k)"
    using assms(3) by simp
  have fails: "\<And>k. 1 \<le> k \<Longrightarrow> k < 1 + nat (RETRY_ATTEMPTS st) \<Longrightarrow> \<exists>e. completion w messages k = Raises e"
    using assms(4) by simp
  from retry_loop_all_fail[OF waits fails, where le = None and fx = fx]
  obtain le' where le': "retry_loop st w messages (nat (RETRY_ATTEMPTS st)) 1 None fx =
     (Exhausted le',
      fx @ concat (map (\<lambda>k. failed_round st messages (x k)) [1..<1 + nat (RETRY_ATTEMPTS st)]))"
    "0 < nat (RETRY_ATTEMPTS st) \<longrightarrow> le' \<noteq> None"
    by blast
  have "le' \<noteq> None"
    using le'(2) assms(2) by simp
  then obtain e where "le' = Some e"
    by auto
  then show ?thesis
    using assms(1) le'(1) by (simp add: call_openai_chat_def)
qed

text \<open>
  Claim C4, at the defaults with a service that fails on all three attempts: three
  requests are made and \<open>None\<close> is returned, but the third failure is followed by a sleep
  of 8 seconds, after which no attempt is made.
\<close>

theorem call_openai_chat_sleeps_after_final_failure:
  "call_openai_chat (default_settings None (Some ''sk'')) failing_service [] [] =
     (Inr None,
      [Net (ChatCompletion_create ''gpt-4o'' [] 0 600) False, Log WARNING retry_warning, Sleep 2,
       Net (ChatCompletion_create ''gpt-4o'' [] 0 600) False, Log WARNING retry_warning, Sleep 4,
       Net (ChatCompletion_create ''gpt-4o'' [] 0 600) False, Log WARNING retry_warning, Sleep 8,
       Log ERROR ''OpenAI calls failed after %d attempts: %s''])"
proof -
  let ?st = "default_settings None (Some ''sk'')"
  have limits: "8 \<le> float_max failing_service" "8 \<le> sleep_max failing_service"
    using default_limits(1,2) by (simp_all add: failing_service_def)
  have h1: "truthy (OPENAI_API_KEY ?st)" and h2: "1 \<le> RETRY_ATTEMPTS ?st"
    by (simp_all add: default_settings_def truthy_def)
  have three: "k = 1 \<or> k = 2 \<or> k = 3" if "1 \<le> k" "k \<le> nat (RETRY_ATTEMPTS ?st)" for k :: nat
    using that by (auto simp: default_settings_def)
  have waits: "backoff_wait ?st failing_service k = Inr (2 ^ k)"
    if "1 \<le> k" "k \<le> nat (RETRY_ATTEMPTS ?st)" for k
    using three[OF that] waits_at_defaults[OF limits, of None "Some ''sk''"] by auto
  have fails: "\<exists>e. completion failing_service [] k = Raises e" for k
    by (simp add: failing_service_def)
  have upt: "[1..<4] = [1::nat, 2, 3]" "[Suc 0..<4] = [Suc 0, 2, 3]"
    by (simp_all add: upt_rec)
  show ?thesis
    using call_openai_chat_exhausted[OF h1 h2 waits fails, where fx = "[]"]
    by (simp add: default_settings_def upt failed_round_def create_call_def)
qed

section \<open>What the completion caller never does\<close>

lemma failed_round_writes_nothing:
  "posted (failed_round st messages x) = []" "attached (failed_round st messages x) = []"
  by (simp_all add: posted_def attached_def failed_round_def create_call_def)

lemma failed_rounds_write_nothing:
  "posted (concat (map (\<lambda>k. failed_round st messages (x k)) ks)) = []"
  "attached (concat (map (\<lambda>k. failed_round st messages (x k)) ks)) = []"
  by (induction ks)
    (simp_all add: posted_append attached_append failed_round_writes_nothing, simp_all add: posted_def attached_def)

lemma strip_blank:
  assumes "list_all is_space c"
  shows "strip c = []"
proof -
  have blank: "dropWhile is_space c = []"
    using assms by (simp add: list_all_iff)
  show ?thesis
    unfolding strip_def blank by simp
qed

text \<open>A trace of completion requests, warnings, sleeps and log records.\<close>

lemma caller_events_write_nothing:
  "posted [Net (create_call st messages) ok] = []" "attached [Net (create_call st messages) ok] = []"
  "posted [Log level text] = []" "attached [Log level text] = []"
  "posted [Sleep x] = []" "attached [Sleep x] = []"
  by (simp_all add: posted_def attached_def create_call_def)

lemma retry_loop_writes_nothing:
  "\<exists>ex. snd (retry_loop st w messages r a le fx) = fx @ ex \<and> posted ex = [] \<and> attached ex = []"
proof (induction r arbitrary: a le fx)
  case 0
  have "posted [] = []" "attached [] = []"
    by (simp_all add: posted_def attached_def)
  then show ?case
    by (intro exI[of _ "[]"]) simp
next
  case (Suc r)
  let ?req = "\<lambda>ok. Net (create_call st messages) ok"
  show ?case
  proof (cases "completion w messages a")
    case (Replies c)
    then have "snd (retry_loop st w messages (Suc r) a le fx) = fx @ [?req True]"
      by simp
    then show ?thesis
      using caller_events_write_nothing(1,2) by blast
  next
    case (Raises e)
    show ?thesis
    proof (cases "float_pow w (RETRY_BACKOFF st) a")
      case (Inl err)
      with Raises have "snd (retry_loop st w messages (Suc r) a le fx) = fx @ [?req False]"
        by simp
      then show ?thesis
        using caller_events_write_nothing(1,2) by blast
    next
      case (Inr wait)
      show ?thesis
      proof (cases "time_sleep w wait")
        case (Inl err)
        with Raises \<open>float_pow w (RETRY_BACKOFF st) a = Inr wait\<close>
        have "snd (retry_loop st w messages (Suc r) a le fx) =
            fx @ ([?req False] @ [Log WARNING retry_warning])"
          by (simp add: Let_def)
        moreover have "posted ([?req False] @ [Log WARNING retry_warning]) = []"
          "attached ([?req False] @ [Log WARNING retry_warning]) = []"
          by (simp_all only: posted_append attached_append caller_events_write_nothing append_Nil)
        ultimately show ?thesis by blast
      next
        case (Inr x)
        with \<open>float_pow w (RETRY_BACKOFF st) a = Inr wait\<close>
        have "backoff_wait st w a = Inr x"
          by (simp add: backoff_wait_def)
        from retry_step[OF Raises this, where r = r and le = le and fx = fx]
        have step: "retry_loop st w messages (Suc r) a le fx =
            retry_loop st w messages r (Suc a) (Some e) (fx @ failed_round st messages x)" .
        from Suc.IH[of "Suc a" "Some e" "fx @ failed_round st messages x"]
        obtain ex where ex: "snd (retry_loop st w messages r (Suc a) (Some e) (fx @ failed_round st messages x))
            = (fx @ failed_round st messages x) @ ex" "posted ex = []" "attached ex = []"
          by blast
        have "snd (retry_loop st w messages (Suc r) a le fx) = fx @ (failed_round st messages x @ ex)"
          using step ex(1) by simp
        moreover have "posted (failed_round st messages x @ ex) = []"
          "attached (failed_round st messages x @ ex) = []"
          using ex(2,3) by (simp_all add: posted_append attached_append failed_round_writes_nothing)
        ultimately show ?thesis by blast
      qed
    qed
  qed
qed

lemma call_openai_chat_writes_nothing:
  "\<exists>cx. snd (call_openai_chat st w messages fx) = fx @ cx \<and> posted cx = [] \<and> attached cx = []"
proof (cases "truthy (OPENAI_API_KEY st)")
  case False
  then show ?thesis
    using call_openai_chat_without_key[OF False, of w messages fx] caller_events_write_nothing(3,4)
    by auto
next
  case True
  from retry_loop_writes_nothing[of st w messages "nat (RETRY_ATTEMPTS st)" 1 None fx]
  obtain ex where ex: "snd (retry_loop st w messages (nat (RETRY_ATTEMPTS st)) 1 None fx) = fx @ ex"
    "posted ex = []" "attached ex = []"
    by blast
  let ?tail = "[Log ERROR ''OpenAI calls failed after %d attempts: %s'']"
  have tail: "posted (ex @ ?tail) = []" "attached (ex @ ?tail) = []"
    using ex(2,3) by (simp_all add: posted_append attached_append caller_events_write_nothing)
  have "snd (call_openai_chat st w messages fx) = fx @ ex
      \<or> snd (call_openai_chat st w messages fx) = fx @ (ex @ ?tail)"
    using True ex(1)
    by (cases "retry_loop st w messages (nat (RETRY_ATTEMPTS st)) 1 None fx";
        cases "fst (retry_loop st w messages (nat (RETRY_ATTEMPTS st)) 1 None fx)")
      (auto simp: call_openai_chat_def Let_def split: option.splits)
  then show ?thesis
    using ex(2,3) tail by blast
qed

text \<open>
  A caller whose first reply comes at attempt \<open>a + r\<close> either returns that reply,
  stripped, or is left by an exception of the backoff before it gets there.
\<close>

lemma retry_loop_reply_or_raise:
  "(\<And>k. a \<le> k \<Longrightarrow> k < a + r \<Longrightarrow> \<exists>e. completion w messages k = Raises e) \<Longrightarrow>
   completion w messages (a + r) = Replies c \<Longrightarrow>
   fst (retry_loop st w messages (Suc (r + y)) a le fx) = Returned (strip c)
   \<or> (\<exists>err. fst (retry_loop st w messages (Suc (r + y)) a le fx) = Propagated err)"
proof (induction r arbitrary: a le fx)
  case 0
  then show ?case by simp
next
  case (Suc r)
  from Suc.prems(1)[of a] obtain e where e: "completion w messages a = Raises e"
    by auto
  have later: "\<And>k. Suc a \<le> k \<Longrightarrow> k < Suc a + r \<Longrightarrow> \<exists>e. completion w messages k = Raises e"
    using Suc.prems(1) by simp
  have final: "completion w messages (Suc a + r) = Replies c"
    using Suc.prems(2) by simp
  show ?case
  proof (cases "backoff_wait st w a")
    case (Inl err)
    then have "fst (retry_loop st w messages (Suc (Suc r + y)) a le fx) = Propagated err"
      using e by (auto simp: backoff_wait_def Let_def split: sum.splits)
    then show ?thesis by blast
  next
    case (Inr x)
    from retry_step[OF e Inr, where r = "Suc (r + y)" and le = le and fx = fx]
    have "retry_loop st w messages (Suc (Suc r + y)) a le fx =
        retry_loop st w messages (Suc (r + y)) (Suc a) (Some e) (fx @ failed_round st messages x)"
      by simp
    then show ?thesis
      using Suc.IH[OF later final, of "Some e" "fx @ failed_round st messages x"] by simp
  qed
qed

lemma call_openai_chat_reply_or_raise:
  assumes "truthy (OPENAI_API_KEY st)" and "1 \<le> j" and "int j \<le> RETRY_ATTEMPTS st"
    and "\<And>k. 1 \<le> k \<Longrightarrow> k < j \<Longrightarrow> \<exists>e. completion w messages k = Raises e"
    and "completion w messages j = Replies c"
  shows "fst (call_openai_chat st w messages fx) = Inr (Some (strip c))
       \<or> (\<exists>err. fst (call_openai_chat st w messages fx) = Inl err)"
proof -
  define r where "r = j - 1"
  define y where "y = nat (RETRY_ATTEMPTS st) - j"
  have n: "nat (RETRY_ATTEMPTS st) = Suc (r + y)" "1 + r = j"
    using assms(2,3) by (simp_all add: r_def y_def)
  have fails: "\<And>k. 1 \<le> k \<Longrightarrow> k < 1 + r \<Longrightarrow> \<exists>e. completion w messages k = Raises e"
    using assms(4) n(2) by simp
  have final: "completion w messages (1 + r) = Replies c"
    using assms(5) n(2) by simp
  from retry_loop_reply_or_raise[OF fails final, of st y None fx]
  have "fst (retry_loop st w messages (nat (RETRY_ATTEMPTS st)) 1 None fx) = Returned (strip c)
      \<or> (\<exists>err. fst (retry_loop st w messages (nat (RETRY_ATTEMPTS st)) 1 None fx) = Propagated err)"
    by (simp only: n(1)[symmetric])
  then show ?thesis
    using assms(1)
    by (cases "retry_loop st w messages (nat (RETRY_ATTEMPTS st)) 1 None fx")
      (auto simp: call_openai_chat_def)
qed

section \<open>Runs that post nothing\<close>

lemma respond_keeps:
  fixes obs :: "effects \<Rightarrow> 'a list"
  assumes hom: "\<And>xs ys. obs (xs @ ys) = obs xs @ obs ys"
    and sil: "\<And>ex. list_all silent ex \<Longrightarrow> obs ex = []"
    and "call_openai_chat st w messages fx0 = (r, fx0 @ cx)"
    and "r = Inr None \<or> r = Inr (Some []) \<or> (\<exists>e. r = Inl e)"
    and "obs cx = []"
  shows "obs (snd (respond st w repo_full n render nothing (call_openai_chat st w messages fx0))) = obs fx0"
proof -
  from respond_without_suggestion[OF assms(3,4), of repo_full n render nothing]
  obtain tail where tail: "snd (respond st w repo_full n render nothing (call_openai_chat st w messages fx0)) = fx0 @ cx @ tail"
    "list_all silent tail" by blast
  show ?thesis
    unfolding tail(1) using assms(5) sil[OF tail(2)] by (simp add: hom)
qed

text \<open>
  A handler whose completion caller never hands back a non-empty suggestion changes no
  observation that the caller itself and the silent events leave alone.
\<close>

lemma handlers_keep:
  fixes obs :: "effects \<Rightarrow> 'a list"
  assumes hom: "\<And>xs ys. obs (xs @ ys) = obs xs @ obs ys"
    and sil: "\<And>ex. list_all silent ex \<Longrightarrow> obs ex = []"
    and call: "\<And>messages fx0. \<exists>r cx. call_openai_chat st w messages fx0 = (r, fx0 @ cx)
             \<and> (r = Inr None \<or> r = Inr (Some []) \<or> (\<exists>e. r = Inl e)) \<and> obs cx = []"
  shows "obs (snd (handle_pull_request st cfg fmt w event fx)) = obs fx"
    and "obs (snd (handle_issue st cfg fmt w event fx)) = obs fx"
proof -
  have via_respond: "obs (snd (respond st w repo_full n render nothing (call_openai_chat st w messages (fx @ ex)))) = obs fx"
    if "list_all silent ex" for repo_full n render nothing messages ex
  proof -
    from call[of messages "fx @ ex"] obtain r cx where
      c: "call_openai_chat st w messages (fx @ ex) = (r, (fx @ ex) @ cx)"
      "r = Inr None \<or> r = Inr (Some []) \<or> (\<exists>e. r = Inl e)" "obs cx = []"
      by blast
    show ?thesis
      using respond_keeps[of obs, OF hom sil c] sil[OF that] by (simp add: hom)
  qed
  show "obs (snd (handle_pull_request st cfg fmt w event fx)) = obs fx"
  proof (cases "\<exists>repo_full n. repository_full_name event = Some repo_full \<and> repo_full \<noteq> []
        \<and> entity_number (case pull_request event of None \<Rightarrow> empty_entity | Some e \<Rightarrow> e) = Some n")
    case False
    have "list_all silent [Log ERROR ''PR payload missing repository or pr number; aborting.'']"
      by simp
    from sil[OF this] show ?thesis
      by (simp add: handle_pull_request_abort[OF False] hom)
  next
    case True
    then obtain repo_full n where ev: "repository_full_name event = Some repo_full" "repo_full \<noteq> []"
      "entity_number (case pull_request event of None \<Rightarrow> empty_entity | Some e \<Rightarrow> e) = Some n"
      by blast
    show ?thesis
    proof (cases "truthy (GITHUB_TOKEN st) \<and> \<not> repo_ok w")
      case True
      have "list_all silent [Log INFO ''Handling PR %s#%s'', Net (Get_repo repo_full) False]"
        by simp
      from sil[OF this] show ?thesis
        using handle_pull_request_no_repo[OF ev, of st w cfg fmt fx] True by (simp add: hom)
    next
      case False
      from handle_pull_request_main[OF ev False, of cfg fmt fx] obtain ex where
        ex: "list_all silent ex"
        "if sensitive_paths cfg = Some Not_iterable
         then handle_pull_request st cfg fmt w event fx = (Some TypeError, fx @ ex)
         else (\<exists>messages. handle_pull_request st cfg fmt w event fx =
                 respond st w repo_full n pr_comment ''No suggestion returned from OpenAI for PR.''
                   (call_openai_chat st w messages (fx @ ex)))"
        by blast
      show ?thesis
      proof (cases "sensitive_paths cfg = Some Not_iterable")
        case True
        then have "handle_pull_request st cfg fmt w event fx = (Some TypeError, fx @ ex)"
          using ex(2) by simp
        then show ?thesis
          using sil[OF ex(1)] by (simp add: hom)
      next
        case False
        then obtain messages where "handle_pull_request st cfg fmt w event fx =
            respond st w repo_full n pr_comment ''No suggestion returned from OpenAI for PR.''
              (call_openai_chat st w messages (fx @ ex))"
          using ex(2) by auto
        then show ?thesis
          using via_respond[OF ex(1)] by simp
      qed
    qed
  qed
  show "obs (snd (handle_issue st cfg fmt w event fx)) = obs fx"
  proof (cases "\<exists>repo_full n. repository_full_name event = Some repo_full \<and> repo_full \<noteq> []
        \<and> entity_number (case issue event of None \<Rightarrow> empty_entity | Some e \<Rightarrow> e) = Some n")
    case False
    have "list_all silent [Log ERROR ''Issue payload missing repository or issue number; aborting.'']"
      by simp
    from sil[OF this] show ?thesis
      by (simp add: handle_issue_abort[OF False] hom)
  next
    case True
    then obtain repo_full n where ev: "repository_full_name event = Some repo_full" "repo_full \<noteq> []"
      "entity_number (case issue event of None \<Rightarrow> empty_entity | Some e \<Rightarrow> e) = Some n"
      by blast
    from handle_issue_main[OF ev] obtain ex messages where
      "list_all silent ex"
      "handle_issue st cfg fmt w event fx =
          respond st w repo_full n issue_comment ''No suggestion returned from OpenAI for issue.''
            (call_openai_chat st w messages (fx @ ex))"
      by blast
    then show ?thesis
      using via_respond by simp
  qed
qed

lemma exit_after_keeps:
  fixes obs :: "effects \<Rightarrow> 'a list"
  assumes hom: "\<And>xs ys. obs (xs @ ys) = obs xs @ obs ys"
    and sil: "\<And>ex. list_all silent ex \<Longrightarrow> obs ex = []"
  shows "obs (snd (exit_after r)) = obs (snd r)"
proof -
  have "list_all silent [Log ERROR ''Unhandled exception in assistant main loop.'']"
    by simp
  from sil[OF this] show ?thesis
    by (cases r) (simp add: exit_after_def hom split: option.splits)
qed

lemma main_keeps:
  fixes obs :: "effects \<Rightarrow> 'a list"
  assumes hom: "\<And>xs ys. obs (xs @ ys) = obs xs @ obs ys"
    and sil: "\<And>ex. list_all silent ex \<Longrightarrow> obs ex = []"
    and call: "\<And>messages fx0. \<exists>r cx. call_openai_chat st w messages fx0 = (r, fx0 @ cx)
             \<and> (r = Inr None \<or> r = Inr (Some []) \<or> (\<exists>e. r = Inl e)) \<and> obs cx = []"
  shows "obs (snd (main st cfg fmt w event fx)) = obs fx"
proof -
  have "list_all silent [Log INFO ''Event is not a pull_request or issue; nothing to do.'']"
    by simp
  from sil[OF this] show ?thesis
    using handlers_keep[of obs, OF hom sil call]
    by (simp add: main_def exit_after_keeps[of obs, OF hom sil] hom)
qed

lemma startup_silent:
  assumes "event_path_ok inp"
  shows "\<exists>cfg ex. list_all silent ex \<and> requests ex = [] \<and> sleeps ex = []
     \<and> process st fmt w inp =
         main st cfg fmt w (case event_json inp of None \<Rightarrow> empty_payload | Some p \<Rightarrow> p) ex"
proof -
  define fx1 where "fx1 = (case event_json inp of
      None \<Rightarrow> [Log ERROR ''Failed to parse GITHUB_EVENT_PATH JSON''] | Some p \<Rightarrow> [])"
  define cfg where "cfg = (case config_file inp of
      None \<Rightarrow> empty_config | Some None \<Rightarrow> empty_config | Some (Some c) \<Rightarrow> c)"
  define fx2 where "fx2 = (case config_file inp of
      None \<Rightarrow> fx1 @ [Log INFO ''No .github/assistant-config.yaml found; using defaults.'']
    | Some None \<Rightarrow> fx1 @ [Log ERROR ''Failed to load .github/assistant-config.yaml; using defaults.'']
    | Some (Some c) \<Rightarrow> fx1)"
  define fx3 where "fx3 = (if \<not> truthy (OPENAI_API_KEY st)
      then fx2 @ [Log WARNING ''OPENAI_API_KEY not set. The assistant will not call the OpenAI API.'']
      else fx2)"
  have "list_all silent fx1 \<and> requests fx1 = [] \<and> sleeps fx1 = []"
    by (simp add: fx1_def requests_def sleeps_def split: option.splits)
  then have "list_all silent fx2 \<and> requests fx2 = [] \<and> sleeps fx2 = []"
    by (simp add: fx2_def requests_def sleeps_def split: option.splits)
  then have quiet: "list_all silent fx3 \<and> requests fx3 = [] \<and> sleeps fx3 = []"
    by (simp add: fx3_def requests_def sleeps_def)
  have "process st fmt w inp =
      main st cfg fmt w (case event_json inp of None \<Rightarrow> empty_payload | Some p \<Rightarrow> p) fx3"
    using assms
    by (simp add: process_def Let_def fx1_def fx2_def fx3_def cfg_def split: option.splits)
  with quiet show ?thesis by blast
qed

lemma process_keeps:
  fixes obs :: "effects \<Rightarrow> 'a list"
  assumes hom: "\<And>xs ys. obs (xs @ ys) = obs xs @ obs ys"
    and sil: "\<And>ex. list_all silent ex \<Longrightarrow> obs ex = []"
    and call: "\<And>messages fx0. \<exists>r cx. call_openai_chat st w messages fx0 = (r, fx0 @ cx)
             \<and> (r = Inr None \<or> r = Inr (Some []) \<or> (\<exists>e. r = Inl e)) \<and> obs cx = []"
  shows "obs (snd (process st fmt w inp)) = []"
proof (cases "event_path_ok inp")
  case False
  have "list_all silent [Log ERROR ''No GITHUB_EVENT_PATH present; exiting.'']"
    by simp
  from sil[OF this] show ?thesis
    using False by (simp add: process_def)
next
  case True
  from startup_silent[OF True] obtain cfg ex where
    "list_all silent ex"
    "process st fmt w inp =
       main st cfg fmt w (case event_json inp of None \<Rightarrow> empty_payload | Some p \<Rightarrow> p) ex"
    by blast
  then show ?thesis
    using main_keeps[of obs, OF hom sil call] sil by simp
qed

text \<open>
  Claim C3. Without a model credential (\<^verbatim>\<open>OPENAI_API_KEY\<close> unset or empty),
  \<open>call_openai_chat\<close> logs the skip, makes no completion request and returns \<open>None\<close>,
  for every message sequence; and whatever the event and the hosting service do, neither
  handler nor the whole process posts a comment or makes a completion request.
\<close>

theorem no_credential_no_completion_no_comment:
  assumes "\<not> truthy (OPENAI_API_KEY st)"
  shows "call_openai_chat st w messages fx =
           (Inr None, fx @ [Log INFO ''Skipping OpenAI call because OPENAI_API_KEY is not set.''])
       \<and> completion_attempts (snd (call_openai_chat st w messages fx)) = completion_attempts fx
       \<and> posted (snd (handle_pull_request st cfg fmt w event fx)) = posted fx
       \<and> completion_attempts (snd (handle_pull_request st cfg fmt w event fx)) = completion_attempts fx
       \<and> posted (snd (handle_issue st cfg fmt w event fx)) = posted fx
       \<and> completion_attempts (snd (handle_issue st cfg fmt w event fx)) = completion_attempts fx
       \<and> posted (snd (process st fmt w inp)) = []
       \<and> completion_attempts (snd (process st fmt w inp)) = []"
proof -
  have skip: "list_all silent [Log INFO ''Skipping OpenAI call because OPENAI_API_KEY is not set.'']"
    by simp
  have call_p: "\<exists>r cx. call_openai_chat st w ms fx0 = (r, fx0 @ cx)
             \<and> (r = Inr None \<or> r = Inr (Some []) \<or> (\<exists>e. r = Inl e)) \<and> posted cx = []" for ms fx0
    using call_openai_chat_without_key[OF assms, of w ms fx0] silent_trace[OF skip] by blast
  have call_c: "\<exists>r cx. call_openai_chat st w ms fx0 = (r, fx0 @ cx)
             \<and> (r = Inr None \<or> r = Inr (Some []) \<or> (\<exists>e. r = Inl e)) \<and> completion_attempts cx = []" for ms fx0
    using call_openai_chat_without_key[OF assms, of w ms fx0] silent_trace[OF skip] by blast
  have sil_p: "\<And>ex. list_all silent ex \<Longrightarrow> posted ex = []"
    and sil_c: "\<And>ex. list_all silent ex \<Longrightarrow> completion_attempts ex = []"
    using silent_trace by blast+
  have "completion_attempts (snd (call_openai_chat st w messages fx)) = completion_attempts fx"
    using call_openai_chat_without_key[OF assms, of w messages fx] silent_trace[OF skip]
    by (simp add: completion_attempts_append)
  then show ?thesis
    using call_openai_chat_without_key[OF assms, of w messages fx]
      handlers_keep[of posted, OF posted_append sil_p call_p]
      handlers_keep[of completion_attempts, OF completion_attempts_append sil_c call_c]
      process_keeps[of posted, OF posted_append sil_p call_p]
      process_keeps[of completion_attempts, OF completion_attempts_append sil_c call_c]
    by simp
qed


text \<open>The issue event of the specification's scenario, without a model credential.\<close>

theorem no_credential_no_completion_no_comment_witness:
  "\<not> truthy (OPENAI_API_KEY (default_settings (Some ''ghs'') None))
   \<and> call_openai_chat (default_settings (Some ''ghs'') None) flaky_service [] [] =
       (Inr None, [Log INFO ''Skipping OpenAI call because OPENAI_API_KEY is not set.''])
   \<and> posted (snd (handle_issue (default_settings (Some ''ghs'') None) empty_config format_named
                  flaky_service crash_event [])) = []
   \<and> posted (snd (process (default_settings (Some ''ghs'') None) format_named flaky_service crash_run)) = []
   \<and> completion_attempts
        (snd (process (default_settings (Some ''ghs'') None) format_named flaky_service crash_run)) = []"
proof -
  have h: "\<not> truthy (OPENAI_API_KEY (default_settings (Some ''ghs'') None))"
    by (simp add: default_settings_def truthy_def)
  show ?thesis
    using h no_credential_no_completion_no_comment[OF h, of flaky_service "[]" "[]" empty_config
        format_named crash_event crash_run]
    by (simp add: posted_def)
qed

section \<open>Blank replies, unrecognised events and prompts\<close>

text \<open>
  Claim C10. With a credential, if the completion request replies on some attempt \<open>j\<close>
  within \<^verbatim>\<open>RETRY_ATTEMPTS\<close> (after failing on the attempts before it) and the reply is
  empty or whitespace only, then \<open>call_openai_chat\<close> returns the empty string whenever the
  waits before attempt \<open>j\<close> are slept through, and in every case both handlers, like the
  whole process, post no comment and attach no label: the empty string is treated as
  \<open>None\<close> is.
\<close>

theorem blank_reply_posts_nothing:
  assumes "truthy (OPENAI_API_KEY st)"
    and "1 \<le> j" and "int j \<le> RETRY_ATTEMPTS st"
    and "\<forall>messages k. 1 \<le> k \<and> k < j \<longrightarrow> (\<exists>e. completion w messages k = Raises e)"
    and "\<forall>messages. \<exists>c. completion w messages j = Replies c \<and> list_all is_space c"
  shows "((\<forall>k. 1 \<le> k \<and> k < j \<longrightarrow> (\<exists>x. backoff_wait st w k = Inr x)) \<longrightarrow>
            fst (call_openai_chat st w messages fx) = Inr (Some []))
       \<and> posted (snd (handle_pull_request st cfg fmt w event fx)) = posted fx
       \<and> attached (snd (handle_pull_request st cfg fmt w event fx)) = attached fx
       \<and> posted (snd (handle_issue st cfg fmt w event fx)) = posted fx
       \<and> attached (snd (handle_issue st cfg fmt w event fx)) = attached fx
       \<and> posted (snd (process st fmt w inp)) = []
       \<and> attached (snd (process st fmt w inp)) = []"
proof -
  have fails: "\<And>k. 1 \<le> k \<Longrightarrow> k < j \<Longrightarrow> \<exists>e. completion w ms k = Raises e" for ms
    using assms(4) by blast
  have reply: "\<exists>r cx. call_openai_chat st w ms fx0 = (r, fx0 @ cx)
      \<and> (r = Inr None \<or> r = Inr (Some []) \<or> (\<exists>e. r = Inl e))
      \<and> posted cx = [] \<and> attached cx = []" for ms fx0
  proof -
    from assms(5) obtain c where c: "completion w ms j = Replies c" "list_all is_space c"
      by blast
    from call_openai_chat_writes_nothing[of st w ms fx0] obtain cx where
      cx: "snd (call_openai_chat st w ms fx0) = fx0 @ cx" "posted cx = []" "attached cx = []"
      by blast
    have "fst (call_openai_chat st w ms fx0) = Inr (Some [])
        \<or> (\<exists>err. fst (call_openai_chat st w ms fx0) = Inl err)"
      using call_openai_chat_reply_or_raise[OF assms(1-3) fails c(1), where fx = fx0] strip_blank[OF c(2)]
      by simp
    moreover have "call_openai_chat st w ms fx0 = (fst (call_openai_chat st w ms fx0), fx0 @ cx)"
      using cx(1) by (simp add: prod_eq_iff)
    ultimately show ?thesis
      using cx(2,3) by metis
  qed
  have call_p: "\<exists>r cx. call_openai_chat st w ms fx0 = (r, fx0 @ cx)
             \<and> (r = Inr None \<or> r = Inr (Some []) \<or> (\<exists>e. r = Inl e)) \<and> posted cx = []" for ms fx0
    using reply[of ms fx0] by blast
  have call_a: "\<exists>r cx. call_openai_chat st w ms fx0 = (r, fx0 @ cx)
             \<and> (r = Inr None \<or> r = Inr (Some []) \<or> (\<exists>e. r = Inl e)) \<and> attached cx = []" for ms fx0
    using reply[of ms fx0] by blast
  have sil_p: "\<And>ex. list_all silent ex \<Longrightarrow> posted ex = []"
    and sil_a: "\<And>ex. list_all silent ex \<Longrightarrow> attached ex = []"
    using silent_trace by blast+
  have returns: "fst (call_openai_chat st w messages fx) = Inr (Some [])"
    if slept: "\<forall>k. 1 \<le> k \<and> k < j \<longrightarrow> (\<exists>x. backoff_wait st w k = Inr x)"
  proof -
    define x where "x k = (case backoff_wait st w k of Inr y \<Rightarrow> y | Inl err \<Rightarrow> 0)" for k
    have waits: "\<And>k. 1 \<le> k \<Longrightarrow> k < j \<Longrightarrow> backoff_wait st w k = Inr (x k)"
      using slept by (auto simp: x_def)
    from assms(5) obtain c where c: "completion w messages j = Replies c" "list_all is_space c"
      by blast
    show ?thesis
      using call_openai_chat_reply_at[OF assms(1-3) waits fails c(1), where fx = fx] strip_blank[OF c(2)]
      by simp
  qed
  show ?thesis
    using returns handlers_keep[of posted, OF posted_append sil_p call_p]
      handlers_keep[of attached, OF attached_append sil_a call_a]
      process_keeps[of posted, OF posted_append sil_p call_p]
      process_keeps[of attached, OF attached_append sil_a call_a]
    by simp
qed

text \<open>The reply \<^verbatim>\<open>" \n"\<close> to the issue event of the specification's scenario.\<close>

theorem blank_reply_posts_nothing_witness:
  "fst (call_openai_chat (default_settings (Some ''ghs'') (Some ''sk'')) blank_service [] []) = Inr (Some [])
   \<and> posted (snd (handle_issue (default_settings (Some ''ghs'') (Some ''sk'')) empty_config
                  format_named blank_service crash_event [])) = []
   \<and> attached (snd (process (default_settings (Some ''ghs'') (Some ''sk'')) format_named
                    blank_service crash_run)) = []"
proof -
  let ?st = "default_settings (Some ''ghs'') (Some ''sk'')"
  have h1: "truthy (OPENAI_API_KEY ?st)" by (simp add: default_settings_def truthy_def)
  have h3: "1 \<le> (1::nat)" by simp
  have h4: "int 1 \<le> RETRY_ATTEMPTS ?st" by (simp add: default_settings_def)
  have h5: "\<forall>messages k. 1 \<le> k \<and> k < 1 \<longrightarrow> (\<exists>e. completion blank_service messages k = Raises e)"
    by simp
  have h6: "\<forall>messages. \<exists>c. completion blank_service messages 1 = Replies c \<and> list_all is_space c"
    by (simp add: blank_service_def flaky_service_def nl_def is_space_def)
  show ?thesis
    using blank_reply_posts_nothing[OF h1 h3 h4 h5 h6, of "[]" "[]" empty_config format_named
        crash_event crash_run]
    by (simp add: posted_def)
qed

lemma process_without_keys:
  assumes "event_path_ok inp"
    and "pull_request (case event_json inp of None \<Rightarrow> empty_payload | Some p \<Rightarrow> p) = None"
    and "issue (case event_json inp of None \<Rightarrow> empty_payload | Some p \<Rightarrow> p) = None"
  shows "fst (process st fmt w inp) = 0"
    and "requests (snd (process st fmt w inp)) = []"
    and "sleeps (snd (process st fmt w inp)) = []"
    and "last (snd (process st fmt w inp)) =
           Log INFO ''Event is not a pull_request or issue; nothing to do.''"
proof -
  let ?event = "case event_json inp of None \<Rightarrow> empty_payload | Some p \<Rightarrow> p"
  from startup_silent[OF assms(1), of st fmt w] obtain cfg ex where
    ex: "requests ex = []" "sleeps ex = []" "process st fmt w inp = main st cfg fmt w ?event ex"
    by blast
  have m: "main st cfg fmt w ?event ex =
      (0, ex @ [Log INFO ''Event is not a pull_request or issue; nothing to do.''])"
    using assms(2,3) by (simp add: main_def)
  show "fst (process st fmt w inp) = 0"
    and "requests (snd (process st fmt w inp)) = []"
    and "sleeps (snd (process st fmt w inp)) = []"
    and "last (snd (process st fmt w inp)) =
           Log INFO ''Event is not a pull_request or issue; nothing to do.''"
    using ex m by (simp_all add: requests_append sleeps_append, simp_all add: requests_def sleeps_def)
qed

text \<open>
  Claim C8. For an event payload with neither a \<^verbatim>\<open>pull_request\<close> nor an
  \<^verbatim>\<open>issue\<close> key, \<open>main\<close> only appends one informational log record and the
  process exits with status 0, having made no request to either service and no sleep.
\<close>

theorem unrecognised_event_is_a_no_op:
  assumes "pull_request event = None" and "issue event = None"
    and "event_path_ok inp" and "event_json inp = Some event"
  shows "main st cfg fmt w event fx =
           (0, fx @ [Log INFO ''Event is not a pull_request or issue; nothing to do.''])
       \<and> fst (process st fmt w inp) = 0
       \<and> requests (snd (process st fmt w inp)) = []
       \<and> sleeps (snd (process st fmt w inp)) = []
       \<and> last (snd (process st fmt w inp)) =
           Log INFO ''Event is not a pull_request or issue; nothing to do.''"
proof -
  have "main st cfg fmt w event fx =
           (0, fx @ [Log INFO ''Event is not a pull_request or issue; nothing to do.''])"
    using assms(1,2) by (simp add: main_def)
  then show ?thesis
    using process_without_keys[of inp st fmt w] assms by simp
qed

text \<open>A payload with only a repository, all credentials set.\<close>

theorem unrecognised_event_is_a_no_op_witness:
  "process (default_settings (Some ''ghs'') (Some ''sk'')) format_named flaky_service
     \<lparr>event_path_ok = True, event_json = Some push_event, config_file = None\<rparr> =
   (0, [Log INFO ''No .github/assistant-config.yaml found; using defaults.'',
        Log INFO ''Event is not a pull_request or issue; nothing to do.''])
   \<and> requests (snd (process (default_settings (Some ''ghs'') (Some ''sk'')) format_named flaky_service
     \<lparr>event_path_ok = True, event_json = Some push_event, config_file = None\<rparr>)) = []"
proof -
  let ?inp = "\<lparr>event_path_ok = True, event_json = Some push_event, config_file = None\<rparr>"
  have h1: "pull_request push_event = None" and h2: "issue push_event = None"
    by (simp_all add: push_event_def)
  have h3: "event_path_ok ?inp" and h4: "event_json ?inp = Some push_event"
    by simp_all
  have "process (default_settings (Some ''ghs'') (Some ''sk'')) format_named flaky_service ?inp =
     (0, [Log INFO ''No .github/assistant-config.yaml found; using defaults.'',
        Log INFO ''Event is not a pull_request or issue; nothing to do.''])"
    by (simp add: process_def main_def push_event_def default_settings_def truthy_def)
  then show ?thesis
    using unrecognised_event_is_a_no_op[OF h1 h2 h3 h4, of
        "default_settings (Some ''ghs'') (Some ''sk'')" empty_config format_named flaky_service "[]"]
    by simp
qed

text \<open>
  Claim C2, as amended. When \<^verbatim>\<open>json.load\<close> fails on the event file, the failure is
  logged, the event becomes the empty payload, which has neither key, and the process
  ends with the no-op log record and exit status 0, without any request.
\<close>

theorem unparsable_event_is_not_fatal:
  assumes "event_path_ok inp" and "event_json inp = None"
  shows "fst (process st fmt w inp) = 0
       \<and> requests (snd (process st fmt w inp)) = []
       \<and> hd (snd (process st fmt w inp)) = Log ERROR ''Failed to parse GITHUB_EVENT_PATH JSON''
       \<and> last (snd (process st fmt w inp)) =
           Log INFO ''Event is not a pull_request or issue; nothing to do.''"
proof -
  have "hd (snd (process st fmt w inp)) = Log ERROR ''Failed to parse GITHUB_EVENT_PATH JSON''"
    using assms
    by (simp add: process_def Let_def main_def empty_payload_def split: option.splits)
  then show ?thesis
    using process_without_keys[of inp st fmt w] assms by (simp add: empty_payload_def)
qed

text \<open>An unparsable event file with all credentials set.\<close>

theorem unparsable_event_is_not_fatal_witness:
  "event_path_ok garbled_run \<and> event_json garbled_run = None
   \<and> fst (process (default_settings (Some ''ghs'') (Some ''sk'')) format_named flaky_service garbled_run) = 0
   \<and> requests (snd (process (default_settings (Some ''ghs'') (Some ''sk'')) format_named flaky_service
        garbled_run)) = []"
proof -
  have h1: "event_path_ok garbled_run" and h2: "event_json garbled_run = None"
    by (simp_all add: garbled_run_def)
  show ?thesis
    using h1 h2 unparsable_event_is_not_fatal[OF h1 h2, of
        "default_settings (Some ''ghs'') (Some ''sk'')" format_named flaky_service]
    by simp
qed

text \<open>
  Claim C2 as stated asks for a non-zero exit status; the run on an unparsable event file
  exits with status 0.
\<close>

theorem unparsable_event_exits_zero:
  "process (default_settings (Some ''ghs'') (Some ''sk'')) format_named flaky_service garbled_run =
     (0, [Log ERROR ''Failed to parse GITHUB_EVENT_PATH JSON'',
          Log INFO ''No .github/assistant-config.yaml found; using defaults.'',
          Log INFO ''Event is not a pull_request or issue; nothing to do.''])"
  by (simp add: process_def main_def garbled_run_def empty_payload_def empty_config_def
      default_settings_def truthy_def)

text \<open>
  Claim C5, as amended. Whatever the title, body, changed files, snippets, repository name,
  number and formatter, \<open>build_issue_prompt\<close> returns a non-empty message sequence whose
  first message has role \<open>System\<close>, the only system message, followed by one user message.
  \<open>build_pr_prompt\<close> does so, with two user messages, for every configuration whose
  \<^verbatim>\<open>sensitive_paths\<close> is absent or can be iterated; for any other it raises
  \<^verbatim>\<open>TypeError\<close> and returns nothing.
\<close>

theorem prompts_start_with_system_message:
  "(sensitive_paths cfg \<noteq> Some Not_iterable \<longrightarrow>
      (\<exists>ms. fst (build_pr_prompt fmt title body changed_files snippets repo_full pr_number cfg fx) = Inr ms
         \<and> ms \<noteq> [] \<and> role (hd ms) = System \<and> map role ms = [System, User, User]))
   \<and> (sensitive_paths cfg = Some Not_iterable \<longrightarrow>
        fst (build_pr_prompt fmt title body changed_files snippets repo_full pr_number cfg fx) = Inl TypeError)
   \<and> fst (build_issue_prompt fmt title body repo_full issue_number cfg fx) \<noteq> []
   \<and> role (hd (fst (build_issue_prompt fmt title body repo_full issue_number cfg fx))) = System
   \<and> map role (fst (build_issue_prompt fmt title body repo_full issue_number cfg fx)) = [System, User]"
proof -
  have first: "ms \<noteq> [] \<and> role (hd ms) = System" if "map role ms = System # rs" for ms rs
    using that by (cases ms) auto
  have pr: "\<exists>ms. fst (build_pr_prompt fmt title body changed_files snippets repo_full pr_number cfg fx) = Inr ms
         \<and> ms \<noteq> [] \<and> role (hd ms) = System \<and> map role ms = [System, User, User]"
    if "sensitive_paths cfg \<noteq> Some Not_iterable"
    using build_pr_prompt_returns[OF that, of fmt title body changed_files snippets repo_full pr_number fx]
      first by (metis (no_types))
  have iss: "map role (fst (build_issue_prompt fmt title body repo_full issue_number cfg fx)) = [System, User]"
    by (simp add: build_issue_prompt_def Let_def split_beta)
  show ?thesis
    using pr build_pr_prompt_not_iterable[of cfg fmt title body changed_files snippets repo_full pr_number fx]
      first[OF iss] iss by simp
qed

text \<open>
  A pull request and an issue under a configuration that lists one sensitive path, and the
  same pull request under the configuration whose \<^verbatim>\<open>sensitive_paths\<close> is \<^verbatim>\<open>null\<close>.
\<close>

theorem prompts_start_with_system_message_witness:
  "sensitive_paths (empty_config\<lparr>sensitive_paths := Some (Items [''secrets/''])\<rparr>) \<noteq> Some Not_iterable
   \<and> map role (projr (fst (build_pr_prompt format_named ''T'' ''B'' [''a.py''] [(''a.py'', ''+pass'')]
        ''acme/widget'' 7 (empty_config\<lparr>sensitive_paths := Some (Items [''secrets/''])\<rparr>) []))) =
       [System, User, User]
   \<and> sensitive_paths null_paths_config = Some Not_iterable
   \<and> fst (build_pr_prompt format_named ''T'' ''B'' [''a.py''] [(''a.py'', ''+pass'')]
        ''acme/widget'' 7 null_paths_config []) = Inl TypeError
   \<and> map role (fst (build_issue_prompt format_named ''T'' ''B'' ''acme/widget'' 42
        (empty_config\<lparr>sensitive_paths := Some (Items [''secrets/''])\<rparr>) [])) = [System, User]"
proof -
  let ?cfg = "empty_config\<lparr>sensitive_paths := Some (Items [''secrets/''])\<rparr>"
  have h1: "sensitive_paths ?cfg \<noteq> Some Not_iterable"
    by simp
  have h2: "sensitive_paths null_paths_config = Some Not_iterable"
    by (simp add: null_paths_config_def)
  show ?thesis
    using h1 h2
      prompts_start_with_system_message[of ?cfg format_named "''T''" "''B''" "[''a.py'']"
        "[(''a.py'', ''+pass'')]" "''acme/widget''" 7 "[]" 42]
      prompts_start_with_system_message[of null_paths_config format_named "''T''" "''B''" "[''a.py'']"
        "[(''a.py'', ''+pass'')]" "''acme/widget''" 7 "[]" 42]
    by auto
qed

text \<open>
  Claim C5 as stated covers every configuration; under the configuration whose
  \<^verbatim>\<open>sensitive_paths\<close> is \<^verbatim>\<open>null\<close> the pull-request builder raises \<^verbatim>\<open>TypeError\<close>, so
  no message sequence is returned, and the pull-request handler ends with that exception
  before any completion request.
\<close>

theorem build_pr_prompt_null_sensitive_paths:
  "build_pr_prompt format_named ''T'' ''B'' [] [] ''acme/widget'' 7 null_paths_config [] = (Inl TypeError, [])
   \<and> returned (fst (build_pr_prompt format_named ''T'' ''B'' [] [] ''acme/widget'' 7 null_paths_config [])) = None
   \<and> fst (handle_pull_request (default_settings None (Some ''sk'')) null_paths_config format_named
            flaky_service combined_event []) = Some TypeError
   \<and> completion_attempts (snd (handle_pull_request (default_settings None (Some ''sk'')) null_paths_config
            format_named flaky_service combined_event [])) = []"
  by (simp add: build_pr_prompt_def handle_pull_request_def Let_def null_paths_config_def empty_config_def
      returned_def combined_event_def crash_event_def default_settings_def truthy_def pr_snippets_def
      slice_to_def completion_attempts_def)

text \<open>
  The issue builder falls back to the same sentence for an absent, an empty and a failing
  template; the pull-request builder does not.
\<close>

lemma build_issue_prompt_fallback:
  assumes "issue_prompt cfg = None \<or> issue_prompt cfg = Some []
           \<or> (\<exists>t. issue_prompt cfg = Some t \<and> fmt t [(''title'', PStr title), (''body'', PStr body),
                  (''repo_full'', PStr repo_full), (''issue_number'', PInt issue_number)] = None)"
  shows "content (last (fst (build_issue_prompt fmt title body repo_full issue_number cfg fx))) =
           issue_task title body"
  using assms by (auto simp: build_issue_prompt_def Let_def)

text \<open>
  Claim C6, at a pull-request template with an unknown placeholder: formatting
  \<^verbatim>\<open>"{missing}"\<close> fails, and the user content is the summary without the task
  sentence, whereas without a template it is the summary followed by the task sentence.
\<close>

theorem build_pr_prompt_malformed_template_drops_task:
  "format_named ''{missing}'' [(''title'', PStr ''T''), (''body'', PStr ''B''),
          (''changed_files_list'', PStr ''No file list available.''),
          (''repo_full'', PStr ''acme/widget''), (''pr_number'', PInt 7)] = None
   \<and> map_option (\<lambda>ms. content (last ms))
        (returned (fst (build_pr_prompt format_named ''T'' ''B'' [] [] ''acme/widget'' 7
           (empty_config\<lparr>pr_prompt := Some ''{missing}''\<rparr>) []))) =
       Some (pr_summary ''T'' ''B'' ''No file list available.'')
   \<and> map_option (\<lambda>ms. content (last ms))
        (returned (fst (build_pr_prompt format_named ''T'' ''B'' [] [] ''acme/widget'' 7 empty_config []))) =
       Some (pr_summary ''T'' ''B'' ''No file list available.'' @ pr_task)
   \<and> map_option (\<lambda>ms. content (last ms))
        (returned (fst (build_pr_prompt format_named ''T'' ''B'' [] [] ''acme/widget'' 7
           (empty_config\<lparr>pr_prompt := Some ''{missing}''\<rparr>) [])))
     \<noteq> map_option (\<lambda>ms. content (last ms))
        (returned (fst (build_pr_prompt format_named ''T'' ''B'' [] [] ''acme/widget'' 7 empty_config [])))"
proof -
  have f: "format_named ''{missing}'' [(''title'', PStr ''T''), (''body'', PStr ''B''),
          (''changed_files_list'', PStr ''No file list available.''),
          (''repo_full'', PStr ''acme/widget''), (''pr_number'', PInt 7)] = None"
    by (simp add: format_named_def is_digit_def)
  have t: "pr_task \<noteq> []"
    by (simp add: pr_task_def nl_def)
  show ?thesis
    using f t by (simp add: build_pr_prompt_def Let_def empty_config_def returned_def)
qed

section \<open>Snippet cap and posted comment\<close>

lemma snippet_loop_keys:
  "distinct paths \<Longrightarrow> set paths \<inter> set (map fst snippets) = {} \<Longrightarrow>
   map fst (fst (snippet_loop w repo_obj pr_number max_lines paths snippets fx)) = map fst snippets @ paths"
proof (induction paths arbitrary: snippets fx)
  case Nil
  then show ?case by simp
next
  case (Cons path paths)
  obtain snippet fx1 where one: "get_file_snippet_for_pr w repo_obj pr_number path max_lines fx = (snippet, fx1)"
    by (cases "get_file_snippet_for_pr w repo_obj pr_number path max_lines fx")
  have fresh: "path \<notin> set (map fst snippets)"
    using Cons.prems(2) by auto
  then have keys: "map fst (AList.update path snippet snippets) = map fst snippets @ [path]"
    by (simp add: update_keys)
  have "distinct paths" "set paths \<inter> set (map fst (AList.update path snippet snippets)) = {}"
    using Cons.prems keys by auto
  from Cons.IH[OF this] show ?case
    using one keys by simp
qed

text \<open>
  Claim C7, as amended. With \<^verbatim>\<open>MAX_SNIPPET_FILES\<close> not negative, for every list of
  changed files with pairwise distinct paths, more than \<^verbatim>\<open>MAX_SNIPPET_FILES\<close> of them,
  the keys of the snippet mapping built for the pull-request prompt are exactly the first
  \<^verbatim>\<open>MAX_SNIPPET_FILES\<close> paths, in listing order, so the mapping has exactly
  \<^verbatim>\<open>MAX_SNIPPET_FILES\<close> entries.
\<close>

theorem pr_snippets_first_files:
  assumes "0 \<le> MAX_SNIPPET_FILES st"
    and "distinct changed_files"
    and "nat (MAX_SNIPPET_FILES st) < length changed_files"
  shows "map fst (fst (pr_snippets st cfg w repo_obj pr_number changed_files fx)) =
           take (nat (MAX_SNIPPET_FILES st)) changed_files
       \<and> int (length (fst (pr_snippets st cfg w repo_obj pr_number changed_files fx))) =
           MAX_SNIPPET_FILES st"
proof -
  have nonempty: "changed_files \<noteq> []"
    using assms(3) by auto
  have sl: "slice_to changed_files (MAX_SNIPPET_FILES st) = take (nat (MAX_SNIPPET_FILES st)) changed_files"
    using assms(1) by (simp add: slice_to_def)
  have first: "distinct (take (nat (MAX_SNIPPET_FILES st)) changed_files)"
    using assms(2) by (rule distinct_take)
  have keys: "map fst (fst (pr_snippets st cfg w repo_obj pr_number changed_files fx)) =
           take (nat (MAX_SNIPPET_FILES st)) changed_files"
    using snippet_loop_keys[OF first, of "[]"] nonempty sl
    by (simp add: pr_snippets_def Let_def)
  have "length (fst (pr_snippets st cfg w repo_obj pr_number changed_files fx)) =
        length (map fst (fst (pr_snippets st cfg w repo_obj pr_number changed_files fx)))"
    by simp
  also have "\<dots> = length (take (nat (MAX_SNIPPET_FILES st)) changed_files)"
    by (simp only: keys)
  also have "\<dots> = nat (MAX_SNIPPET_FILES st)"
    using assms(3) by simp
  finally have "int (length (fst (pr_snippets st cfg w repo_obj pr_number changed_files fx))) =
      MAX_SNIPPET_FILES st"
    using assms(1) by simp
  then show ?thesis
    using keys by blast
qed

text \<open>
  Ten changed files, as the hosting service lists them for pull request 7, with the
  default cap of 5.
\<close>

theorem pr_snippets_first_files_witness:
  "fst (fetch_changed_files_for_pr (listing_service ten_files) 7 []) = ten_files
   \<and> 0 \<le> MAX_SNIPPET_FILES (default_settings (Some ''ghs'') (Some ''sk''))
   \<and> distinct ten_files
   \<and> nat (MAX_SNIPPET_FILES (default_settings (Some ''ghs'') (Some ''sk''))) < length ten_files
   \<and> map fst (fst (pr_snippets (default_settings (Some ''ghs'') (Some ''sk'')) empty_config
       (listing_service ten_files) True 7 ten_files [])) = [''a.py'', ''b.py'', ''c.py'', ''d.py'', ''e.py'']
   \<and> length (fst (pr_snippets (default_settings (Some ''ghs'') (Some ''sk'')) empty_config
       (listing_service ten_files) True 7 ten_files [])) = 5"
proof -
  let ?st = "default_settings (Some ''ghs'') (Some ''sk'')"
  have listed: "fst (fetch_changed_files_for_pr (listing_service ten_files) 7 []) = ten_files"
    by (simp add: fetch_changed_files_for_pr_def listing_service_def flaky_service_def comp_def)
  have h1: "0 \<le> MAX_SNIPPET_FILES ?st" by (simp add: default_settings_def)
  have h2: "distinct ten_files"
    by (simp add: ten_files_def)
  have h3: "nat (MAX_SNIPPET_FILES ?st) < length ten_files"
    by (simp add: default_settings_def ten_files_def)
  have cap: "MAX_SNIPPET_FILES ?st = 5"
    by (simp add: default_settings_def)
  have firsts: "take 5 ten_files = [''a.py'', ''b.py'', ''c.py'', ''d.py'', ''e.py'']"
    by (simp add: ten_files_def)
  show ?thesis
    using listed h1 h2 h3
      pr_snippets_first_files[OF h1 h2 h3, of empty_config "listing_service ten_files" True 7 "[]"]
    by (simp add: cap firsts)
qed

text \<open>
  Claim C7 as stated covers every value of \<^verbatim>\<open>MAX_SNIPPET_FILES\<close>, which is read with
  \<^verbatim>\<open>int\<close> from the environment. With \<^verbatim>\<open>MAX_SNIPPET_FILES=-1\<close> the slice
  \<^verbatim>\<open>changed_files[:-1]\<close> drops only the last path: the ten listed files, more than
  \<open>-1\<close> and pairwise distinct, give nine entries.
\<close>

theorem pr_snippets_negative_cap:
  "fst (fetch_changed_files_for_pr (listing_service ten_files) 7 []) = ten_files
   \<and> distinct ten_files
   \<and> MAX_SNIPPET_FILES ((default_settings (Some ''ghs'') (Some ''sk''))\<lparr>MAX_SNIPPET_FILES := - 1\<rparr>)
       < int (length ten_files)
   \<and> map fst (fst (pr_snippets ((default_settings (Some ''ghs'') (Some ''sk''))\<lparr>MAX_SNIPPET_FILES := - 1\<rparr>)
       empty_config (listing_service ten_files) True 7 ten_files [])) =
       [''a.py'', ''b.py'', ''c.py'', ''d.py'', ''e.py'', ''f.py'', ''g.py'', ''h.py'', ''i.py'']
   \<and> int (length (fst (pr_snippets
         ((default_settings (Some ''ghs'') (Some ''sk''))\<lparr>MAX_SNIPPET_FILES := - 1\<rparr>)
         empty_config (listing_service ten_files) True 7 ten_files []))) \<noteq>
       MAX_SNIPPET_FILES ((default_settings (Some ''ghs'') (Some ''sk''))\<lparr>MAX_SNIPPET_FILES := - 1\<rparr>)"
proof -
  let ?st = "(default_settings (Some ''ghs'') (Some ''sk''))\<lparr>MAX_SNIPPET_FILES := - 1\<rparr>"
  have listed: "fst (fetch_changed_files_for_pr (listing_service ten_files) 7 []) = ten_files"
    by (simp add: fetch_changed_files_for_pr_def listing_service_def flaky_service_def comp_def)
  let ?nine = "[''a.py'', ''b.py'', ''c.py'', ''d.py'', ''e.py'', ''f.py'', ''g.py'', ''h.py'', ''i.py'']"
  have sl: "slice_to ten_files (MAX_SNIPPET_FILES ?st) = ?nine"
    by (simp add: slice_to_def ten_files_def)
  have ne: "ten_files \<noteq> []"
    by (simp add: ten_files_def)
  have pr: "pr_snippets ?st empty_config (listing_service ten_files) True 7 ten_files [] =
      snippet_loop (listing_service ten_files) True 7 40 (slice_to ten_files (MAX_SNIPPET_FILES ?st)) [] []"
    using ne by (simp add: pr_snippets_def empty_config_def)
  have d: "distinct ?nine"
    by simp
  have loop: "map fst (fst (snippet_loop (listing_service ten_files) True 7 40 ?nine [] [])) =
      map fst ([] :: (string \<times> string) list) @ ?nine"
    by (rule snippet_loop_keys[OF d]) simp
  have keys: "map fst (fst (pr_snippets ?st empty_config (listing_service ten_files) True 7 ten_files [])) =
      ?nine"
    by (simp only: pr sl loop list.map append_Nil)
  have "length (fst (pr_snippets ?st empty_config (listing_service ten_files) True 7 ten_files [])) =
      length (map fst (fst (pr_snippets ?st empty_config (listing_service ten_files) True 7 ten_files [])))"
    by simp
  also have "\<dots> = 9"
    by (simp only: keys) simp
  finally have len: "length (fst (pr_snippets ?st empty_config (listing_service ten_files) True 7 ten_files [])) = 9" .
  have "distinct ten_files"
    by (simp add: ten_files_def)
  then show ?thesis
    using listed keys len by (simp add: ten_files_def)
qed

lemma safe_post_all_ok:
  assumes "truthy (GITHUB_TOKEN st)" and "repo_ok w" and "issue_ok w" and "comment_ok w"
    and "labels w = Some names" and "add_label_ok w"
    and "ASSISTANT_LABEL st \<in> set names \<or> create_label_ok w"
  shows "safe_post_comment_and_label st w repo_full n comment_body fx =
     fx @ [Net (Get_repo repo_full) True, Net (Get_issue n) True, Net (Create_comment comment_body) True,
           Net Get_labels True]
        @ (if ASSISTANT_LABEL st \<in> set names then []
           else [Net (Create_label (ASSISTANT_LABEL st) ''f29513'' ''AI-assisted content'') True])
        @ [Net (Add_to_labels (ASSISTANT_LABEL st)) True]"
  using assms by (auto simp: safe_post_comment_and_label_def Let_def)

lemma respond_posts_reply:
  assumes "truthy (OPENAI_API_KEY st)"
    and "\<forall>k. 1 \<le> k \<and> k < j \<longrightarrow> (\<exists>x. backoff_wait st w k = Inr x)"
    and "1 \<le> j" and "int j \<le> RETRY_ATTEMPTS st"
    and "\<forall>messages k. 1 \<le> k \<and> k < j \<longrightarrow> (\<exists>e. completion w messages k = Raises e)"
    and "\<forall>messages. completion w messages j = Replies c" and "strip c \<noteq> []"
    and "truthy (GITHUB_TOKEN st)" and "repo_ok w" and "issue_ok w" and "comment_ok w"
    and "labels w = Some names" and "add_label_ok w"
    and "ASSISTANT_LABEL st \<in> set names \<or> create_label_ok w"
    and "list_all silent ex"
    and "r = respond st w repo_full n render nothing (call_openai_chat st w messages (fx @ ex))"
  shows "posted (snd r) = posted fx @ [render (strip c)]"
    and "attached (snd r) = attached fx @ [ASSISTANT_LABEL st]"
    and "\<exists>pre. r = (None, safe_post_comment_and_label st w repo_full n (render (strip c)) (fx @ pre))"
proof -
  define x where "x k = (case backoff_wait st w k of Inr y \<Rightarrow> y | Inl err \<Rightarrow> 0)" for k
  let ?pre = "ex @ concat (map (\<lambda>k. failed_round st messages (x k)) [1..<j])
      @ [Net (create_call st messages) True]"
  have waits: "\<And>k. 1 \<le> k \<Longrightarrow> k < j \<Longrightarrow> backoff_wait st w k = Inr (x k)"
    using assms(2) by (auto simp: x_def)
  have fails: "\<And>k. 1 \<le> k \<Longrightarrow> k < j \<Longrightarrow> \<exists>e. completion w messages k = Raises e"
    using assms(5) by blast
  have reply: "completion w messages j = Replies c"
    using assms(6) by blast
  have "call_openai_chat st w messages (fx @ ex) = (Inr (Some (strip c)), fx @ ?pre)"
    using call_openai_chat_reply_at[OF assms(1,3,4) waits fails reply, where fx = "fx @ ex"] by simp
  then have r: "r = (None, safe_post_comment_and_label st w repo_full n (render (strip c)) (fx @ ?pre))"
    using assms(7,16) by (simp add: respond_def)
  then show "\<exists>pre. r = (None, safe_post_comment_and_label st w repo_full n (render (strip c)) (fx @ pre))"
    by blast
  have pre: "posted ?pre = []" "attached ?pre = []"
    using silent_trace[OF assms(15)]
    by (simp_all add: posted_append attached_append failed_rounds_write_nothing)
      (simp_all add: posted_def attached_def create_call_def)
  show "posted (snd r) = posted fx @ [render (strip c)]"
    unfolding r using pre(1)
    by (simp add: safe_post_all_ok[OF assms(8-14)] posted_append) (simp add: posted_def)
  show "attached (snd r) = attached fx @ [ASSISTANT_LABEL st]"
    unfolding r using pre(2)
    by (simp add: safe_post_all_ok[OF assms(8-14)] attached_append) (simp add: attached_def)
qed

text \<open>
  Claim C9, as amended. With both credentials, when the completion request replies \<open>c\<close>
  on some attempt within \<^verbatim>\<open>RETRY_ATTEMPTS\<close>, the waits before that attempt are slept
  through, \<open>c\<close> stripped of surrounding whitespace is not empty, and the hosting requests
  succeed, each handler posts exactly one comment: its fixed prefix line, the stripped
  reply and its fixed disclaimer; and it attaches the configured label. For a pull request
  this needs a prompt, that is a configuration whose \<^verbatim>\<open>sensitive_paths\<close> is absent or
  can be iterated. The responder's requests are: repository, issue, comment,
  label listing, then the creation of the label if the listing lacks it, then the
  attachment.
\<close>

theorem reply_is_posted_stripped_and_labelled:
  assumes "truthy (OPENAI_API_KEY st)"
    and "\<forall>k. 1 \<le> k \<and> k < j \<longrightarrow> (\<exists>x. backoff_wait st w k = Inr x)"
    and "1 \<le> j" and "int j \<le> RETRY_ATTEMPTS st"
    and "\<forall>messages k. 1 \<le> k \<and> k < j \<longrightarrow> (\<exists>e. completion w messages k = Raises e)"
    and "\<forall>messages. completion w messages j = Replies c" and "strip c \<noteq> []"
    and "truthy (GITHUB_TOKEN st)" and "repo_ok w" and "issue_ok w" and "comment_ok w"
    and "labels w = Some names" and "add_label_ok w"
    and "ASSISTANT_LABEL st \<in> set names \<or> create_label_ok w"
    and "repository_full_name event = Some repo_full" and "repo_full \<noteq> []"
  shows "(entity_number (case issue event of None \<Rightarrow> empty_entity | Some e \<Rightarrow> e) = Some n \<longrightarrow>
            posted (snd (handle_issue st cfg fmt w event fx)) = posted fx @ [issue_comment (strip c)]
          \<and> attached (snd (handle_issue st cfg fmt w event fx)) = attached fx @ [ASSISTANT_LABEL st]
          \<and> (\<exists>pre. handle_issue st cfg fmt w event fx =
                (None, safe_post_comment_and_label st w repo_full n (issue_comment (strip c)) (fx @ pre))))
       \<and> (entity_number (case pull_request event of None \<Rightarrow> empty_entity | Some e \<Rightarrow> e) = Some n
          \<and> sensitive_paths cfg \<noteq> Some Not_iterable \<longrightarrow>
            posted (snd (handle_pull_request st cfg fmt w event fx)) = posted fx @ [pr_comment (strip c)]
          \<and> attached (snd (handle_pull_request st cfg fmt w event fx)) = attached fx @ [ASSISTANT_LABEL st]
          \<and> (\<exists>pre. handle_pull_request st cfg fmt w event fx =
                (None, safe_post_comment_and_label st w repo_full n (pr_comment (strip c)) (fx @ pre))))
       \<and> safe_post_comment_and_label st w repo_full n comment_body fx =
           fx @ [Net (Get_repo repo_full) True, Net (Get_issue n) True,
                 Net (Create_comment comment_body) True, Net Get_labels True]
              @ (if ASSISTANT_LABEL st \<in> set names then []
                 else [Net (Create_label (ASSISTANT_LABEL st) ''f29513'' ''AI-assisted content'') True])
              @ [Net (Add_to_labels (ASSISTANT_LABEL st)) True]"
proof (intro conjI impI)
  assume num: "entity_number (case issue event of None \<Rightarrow> empty_entity | Some e \<Rightarrow> e) = Some n"
  from handle_issue_main[OF assms(15,16) num, of st cfg fmt w fx] obtain ex messages where
    ex: "list_all silent ex"
    and h: "handle_issue st cfg fmt w event fx =
          respond st w repo_full n issue_comment ''No suggestion returned from OpenAI for issue.''
            (call_openai_chat st w messages (fx @ ex))"
    by blast
  note facts = respond_posts_reply[OF assms(1-14) ex h]
  show "posted (snd (handle_issue st cfg fmt w event fx)) = posted fx @ [issue_comment (strip c)]"
    by (rule facts(1))
  show "attached (snd (handle_issue st cfg fmt w event fx)) = attached fx @ [ASSISTANT_LABEL st]"
    by (rule facts(2))
  show "\<exists>pre. handle_issue st cfg fmt w event fx =
      (None, safe_post_comment_and_label st w repo_full n (issue_comment (strip c)) (fx @ pre))"
    by (rule facts(3))
next
  assume pr: "entity_number (case pull_request event of None \<Rightarrow> empty_entity | Some e \<Rightarrow> e) = Some n
      \<and> sensitive_paths cfg \<noteq> Some Not_iterable"
  then have num: "entity_number (case pull_request event of None \<Rightarrow> empty_entity | Some e \<Rightarrow> e) = Some n"
    and iterable: "sensitive_paths cfg \<noteq> Some Not_iterable"
    by simp_all
  have ok: "\<not> (truthy (GITHUB_TOKEN st) \<and> \<not> repo_ok w)"
    using assms(9) by simp
  from handle_pull_request_main[OF assms(15,16) num ok, of cfg fmt fx] iterable obtain ex messages where
    ex: "list_all silent ex"
    and h: "handle_pull_request st cfg fmt w event fx =
          respond st w repo_full n pr_comment ''No suggestion returned from OpenAI for PR.''
            (call_openai_chat st w messages (fx @ ex))"
    by auto
  note facts = respond_posts_reply[OF assms(1-14) ex h]
  show "posted (snd (handle_pull_request st cfg fmt w event fx)) = posted fx @ [pr_comment (strip c)]"
    by (rule facts(1))
  show "attached (snd (handle_pull_request st cfg fmt w event fx)) = attached fx @ [ASSISTANT_LABEL st]"
    by (rule facts(2))
  show "\<exists>pre. handle_pull_request st cfg fmt w event fx =
      (None, safe_post_comment_and_label st w repo_full n (pr_comment (strip c)) (fx @ pre))"
    by (rule facts(3))
next
  show "safe_post_comment_and_label st w repo_full n comment_body fx =
           fx @ [Net (Get_repo repo_full) True, Net (Get_issue n) True,
                 Net (Create_comment comment_body) True, Net Get_labels True]
              @ (if ASSISTANT_LABEL st \<in> set names then []
                 else [Net (Create_label (ASSISTANT_LABEL st) ''f29513'' ''AI-assisted content'') True])
              @ [Net (Add_to_labels (ASSISTANT_LABEL st)) True]"
    by (rule safe_post_all_ok[OF assms(8-14)])
qed


lemma strip_reply:
  "strip ''Likely a null dereference; request logs.'' = ''Likely a null dereference; request logs.''"
  "strip (''Likely a null dereference; request logs.'' @ nl) = ''Likely a null dereference; request logs.''"
  by (simp_all add: strip_def is_space_def nl_def)

text \<open>The specification's scenario, on a payload with both keys and a repository without the label.\<close>

theorem reply_is_posted_stripped_and_labelled_witness:
  "posted (snd (handle_issue (default_settings (Some ''ghs'') (Some ''sk'')) empty_config format_named
       answering_service combined_event [])) =
     [issue_comment ''Likely a null dereference; request logs.'']
   \<and> attached (snd (handle_issue (default_settings (Some ''ghs'') (Some ''sk'')) empty_config format_named
       answering_service combined_event [])) = [''ai-assisted'']
   \<and> posted (snd (handle_pull_request (default_settings (Some ''ghs'') (Some ''sk'')) empty_config
       format_named answering_service combined_event [])) =
     [pr_comment ''Likely a null dereference; request logs.'']
   \<and> safe_post_comment_and_label (default_settings (Some ''ghs'') (Some ''sk'')) answering_service
       ''acme/widget'' 42 ''text'' [] =
     [Net (Get_repo ''acme/widget'') True, Net (Get_issue 42) True, Net (Create_comment ''text'') True,
      Net Get_labels True, Net (Create_label ''ai-assisted'' ''f29513'' ''AI-assisted content'') True,
      Net (Add_to_labels ''ai-assisted'') True]"
proof -
  let ?st = "default_settings (Some ''ghs'') (Some ''sk'')"
  let ?w = answering_service
  have h1: "truthy (OPENAI_API_KEY ?st)"
    and h2: "\<forall>k. 1 \<le> k \<and> k < (1::nat) \<longrightarrow> (\<exists>x. backoff_wait ?st ?w k = Inr x)"
    and h3: "1 \<le> (1::nat)" and h4: "int 1 \<le> RETRY_ATTEMPTS ?st"
    by (simp_all add: default_settings_def truthy_def)
  have h5: "\<forall>messages k. 1 \<le> k \<and> k < 1 \<longrightarrow> (\<exists>e. completion ?w messages k = Raises e)"
    by simp
  have h6: "\<forall>messages. completion ?w messages 1 = Replies ''Likely a null dereference; request logs.''"
    by (simp add: answering_service_def flaky_service_def)
  have h7: "strip ''Likely a null dereference; request logs.'' \<noteq> []"
    by (simp add: strip_reply)
  have h8: "truthy (GITHUB_TOKEN ?st)" by (simp add: default_settings_def truthy_def)
  have h9: "repo_ok ?w" and h10: "issue_ok ?w" and h11: "comment_ok ?w"
    and h12: "labels ?w = Some []" and h13: "add_label_ok ?w"
    and h14: "ASSISTANT_LABEL ?st \<in> set [] \<or> create_label_ok ?w"
    by (simp_all add: answering_service_def flaky_service_def)
  have h15: "repository_full_name combined_event = Some ''acme/widget''" and h16: "''acme/widget'' \<noteq> []"
    by (simp_all add: combined_event_def crash_event_def)
  have n1: "entity_number (case issue combined_event of None \<Rightarrow> empty_entity | Some e \<Rightarrow> e) = Some 42"
    and n2: "entity_number (case pull_request combined_event of None \<Rightarrow> empty_entity | Some e \<Rightarrow> e) = Some 42"
    by (simp_all add: combined_event_def crash_event_def)
  have n3: "sensitive_paths empty_config \<noteq> Some Not_iterable"
    by (simp add: empty_config_def)
  show ?thesis
    using reply_is_posted_stripped_and_labelled[OF h1 h2 h3 h4 h5 h6 h7 h8 h9 h10 h11 h12 h13 h14 h15 h16,
        of 42 empty_config format_named "[]" "''text''"] n1 n2 n3
    by (simp add: strip_reply posted_def attached_def default_settings_def)
qed

text \<open>
  Claim C9 as stated posts the reply verbatim. A reply that ends with a newline is posted
  without it.
\<close>

theorem reply_with_newline_is_not_posted_verbatim:
  "posted (snd (handle_issue (default_settings (Some ''ghs'') (Some ''sk'')) empty_config format_named
       newline_service crash_event [])) =
     [issue_comment ''Likely a null dereference; request logs.'']
   \<and> posted (snd (handle_issue (default_settings (Some ''ghs'') (Some ''sk'')) empty_config format_named
       newline_service crash_event [])) \<noteq>
     [issue_comment (''Likely a null dereference; request logs.'' @ nl)]"
proof -
  let ?st = "default_settings (Some ''ghs'') (Some ''sk'')"
  let ?w = newline_service
  let ?c = "''Likely a null dereference; request logs.'' @ nl"
  have h1: "truthy (OPENAI_API_KEY ?st)"
    and h2: "\<forall>k. 1 \<le> k \<and> k < (1::nat) \<longrightarrow> (\<exists>x. backoff_wait ?st ?w k = Inr x)"
    and h3: "1 \<le> (1::nat)" and h4: "int 1 \<le> RETRY_ATTEMPTS ?st"
    by (simp_all add: default_settings_def truthy_def)
  have h5: "\<forall>messages k. 1 \<le> k \<and> k < 1 \<longrightarrow> (\<exists>e. completion ?w messages k = Raises e)"
    by simp
  have h6: "\<forall>messages. completion ?w messages 1 = Replies ?c"
    by (simp add: newline_service_def flaky_service_def)
  have h7: "strip ?c \<noteq> []"
    unfolding strip_reply(2) by simp
  have h8: "truthy (GITHUB_TOKEN ?st)" by (simp add: default_settings_def truthy_def)
  have h9: "repo_ok ?w" and h10: "issue_ok ?w" and h11: "comment_ok ?w"
    and h12: "labels ?w = Some []" and h13: "add_label_ok ?w"
    and h14: "ASSISTANT_LABEL ?st \<in> set [] \<or> create_label_ok ?w"
    by (simp_all add: newline_service_def flaky_service_def)
  have ev: "repository_full_name crash_event = Some ''acme/widget''" "''acme/widget'' \<noteq> []"
    "entity_number (case issue crash_event of None \<Rightarrow> empty_entity | Some e \<Rightarrow> e) = Some 42"
    by (simp_all add: crash_event_def)
  from handle_issue_main[OF ev, of ?st empty_config format_named ?w "[]"] obtain ex messages where
    ex: "list_all silent ex"
    and h: "handle_issue ?st empty_config format_named ?w crash_event [] =
          respond ?st ?w ''acme/widget'' 42 issue_comment ''No suggestion returned from OpenAI for issue.''
            (call_openai_chat ?st ?w messages ([] @ ex))"
    by blast
  have p: "posted (snd (handle_issue ?st empty_config format_named ?w crash_event [])) =
      [issue_comment ''Likely a null dereference; request logs.'']"
    using respond_posts_reply(1)[OF h1 h2 h3 h4 h5 h6 h7 h8 h9 h10 h11 h12 h13 h14 ex h]
    unfolding strip_reply(2) by (simp add: posted_def)
  have "issue_comment ''Likely a null dereference; request logs.'' \<noteq> issue_comment ?c"
    by (simp add: issue_comment_def nl_def)
  with p show ?thesis by simp
qed

end
